theory Spec2Isabelle
  imports Main "HOL-Library.Sublist"
begin

section \<open>Values, rows and exceptions\<close>

text \<open>
  The Python values that reach the query builder as filter operands, pagination values,
  row values and procedure arguments. Lists and tuples are kept apart because
  \<^verbatim>\<open>in_\<close> and \<^verbatim>\<open>not_in\<close> convert their operand with \<^verbatim>\<open>tuple(values)\<close>.
\<close>

datatype pyval =
    VNone
  | VBool bool
  | VInt int
  | VStr string
  | VList "pyval list"
  | VTuple "pyval list"

text \<open>
  The exceptions that can leave the methods of \<^verbatim>\<open>supagres.py\<close>: the one the source raises
  itself (\<^verbatim>\<open>TimeoutError\<close>), the ones the driver raises
  (\<^verbatim>\<open>psycopg2.errors.QueryCanceled\<close> and any other driver error), and the ones Python raises
  for the source's own expressions (\<^verbatim>\<open>tuple(5)\<close>, \<^verbatim>\<open>len(5)\<close>, \<^verbatim>\<open>row[col]\<close>,
  \<^verbatim>\<open>data[0]\<close>).
\<close>

datatype error =
    TimeoutError string
  | QueryCanceled
  | DriverError string
  | TypeError
  | KeyError string
  | IndexError

text \<open>A dict with string keys, in insertion order.\<close>

type_synonym row = "(string \<times> pyval) list"

definition keys :: "row \<Rightarrow> string list" where
  "keys d = map fst d"

definition vals :: "row \<Rightarrow> pyval list" where
  "vals d = map snd d"

text \<open>\<^verbatim>\<open>d[k]\<close>: raises \<^verbatim>\<open>KeyError\<close> for a key the dict does not hold.\<close>

definition getitem :: "row \<Rightarrow> string \<Rightarrow> error + pyval" where
  "getitem d k = (case map_of d k of None \<Rightarrow> Inl (KeyError k) | Some v \<Rightarrow> Inr v)"

text \<open>
  \<^verbatim>\<open>iter(v)\<close> as \<^verbatim>\<open>tuple(v)\<close> and \<^verbatim>\<open>list.extend(v)\<close> use it: a list or a tuple yields
  its elements, a string its characters (each a one-character string), and
  \<^verbatim>\<open>None\<close>, a bool or an int raises \<^verbatim>\<open>TypeError\<close>.
\<close>

fun py_iter :: "pyval \<Rightarrow> error + pyval list" where
  "py_iter (VList xs) = Inr xs"
| "py_iter (VTuple xs) = Inr xs"
| "py_iter (VStr s) = Inr (map (\<lambda>c. VStr [c]) s)"
| "py_iter VNone = Inl TypeError"
| "py_iter (VBool b) = Inl TypeError"
| "py_iter (VInt i) = Inl TypeError"

text \<open>\<^verbatim>\<open>len(v)\<close>: defined on the same values.\<close>

fun py_len :: "pyval \<Rightarrow> error + nat" where
  "py_len (VList xs) = Inr (length xs)"
| "py_len (VTuple xs) = Inr (length xs)"
| "py_len (VStr s) = Inr (length s)"
| "py_len VNone = Inl TypeError"
| "py_len (VBool b) = Inl TypeError"
| "py_len (VInt i) = Inl TypeError"

text \<open>\<^verbatim>\<open>tuple(v)\<close>.\<close>

definition py_tuple :: "pyval \<Rightarrow> error + pyval" where
  "py_tuple v = (case py_iter v of Inl e \<Rightarrow> Inl e | Inr xs \<Rightarrow> Inr (VTuple xs))"

text \<open>
  \<^verbatim>\<open>str.upper()\<close> on the ASCII letters; every other character is left as it is.
  Python also maps letters outside ASCII, so an operator spelled with such letters is
  outside what this function says; the operators the builder's own methods pass are
  ASCII.
\<close>

definition upper_char :: "char \<Rightarrow> char" where
  "upper_char c =
     (case map_of (zip ''abcdefghijklmnopqrstuvwxyz'' ''ABCDEFGHIJKLMNOPQRSTUVWXYZ'') c of
        None \<Rightarrow> c
      | Some u \<Rightarrow> u)"

definition upper :: "string \<Rightarrow> string" where
  "upper s = map upper_char s"

section \<open>The driver's SQL composition (\<^verbatim>\<open>psycopg2.sql\<close>)\<close>

text \<open>
  \<^verbatim>\<open>sql.SQL\<close>, \<^verbatim>\<open>sql.Identifier\<close>, \<^verbatim>\<open>sql.Placeholder\<close> and \<^verbatim>\<open>sql.Composed\<close>,
  the four kinds of composable the source builds its statements from.
\<close>

datatype composable =
    SQL string
  | Identifier string
  | Placeholder
  | Composed "composable list"

text \<open>
  Identifier quoting as the driver does it: the name between double quotes, each double
  quote inside it doubled.
\<close>

definition quote_ident :: "string \<Rightarrow> string" where
  "quote_ident s =
     CHR 0x22 # concat (map (\<lambda>c. if c = CHR 0x22 then [CHR 0x22, CHR 0x22] else [c]) s)
       @ [CHR 0x22]"

text \<open>\<^verbatim>\<open>as_string\<close>: the statement text the driver sends for a composable.\<close>

fun as_string :: "composable \<Rightarrow> string" where
  "as_string (SQL s) = s"
| "as_string (Identifier s) = quote_ident s"
| "as_string Placeholder = ''%s''"
| "as_string (Composed xs) = concat (map as_string xs)"

text \<open>
  \<^verbatim>\<open>sep.join(seq)\<close>: the elements of \<^verbatim>\<open>seq\<close> with \<^verbatim>\<open>sep\<close> between each two.
\<close>

fun intersperse :: "'a \<Rightarrow> 'a list \<Rightarrow> 'a list" where
  "intersperse sep [] = []"
| "intersperse sep [x] = [x]"
| "intersperse sep (x # y # ys) = x # sep # intersperse sep (y # ys)"

definition sql_join :: "composable \<Rightarrow> composable list \<Rightarrow> composable" where
  "sql_join sep xs = Composed (intersperse sep xs)"

text \<open>
  \<^verbatim>\<open>sql.SQL(template).format(*args)\<close>: the template is cut at each \<^verbatim>\<open>{}\<close> field; every
  non-empty piece of literal text becomes an \<^verbatim>\<open>SQL\<close> and every field the next argument.
  Each template of the source has as many fields as arguments; a field with no argument
  left (an \<^verbatim>\<open>IndexError\<close> in Python) cannot arise there and is rendered as nothing.
\<close>

fun format_parts :: "string \<Rightarrow> string \<Rightarrow> composable list \<Rightarrow> composable list" where
  "format_parts pre [] args = (if pre = [] then [] else [SQL pre])"
| "format_parts pre [c] args = [SQL (pre @ [c])]"
| "format_parts pre (c # d # rest) args =
     (if c = CHR ''{'' \<and> d = CHR ''}'' then
        (if pre = [] then [] else [SQL pre])
          @ (case args of [] \<Rightarrow> format_parts [] rest [] | a # as \<Rightarrow> a # format_parts [] rest as)
      else format_parts (pre @ [c]) (d # rest) args)"

definition sql_format :: "string \<Rightarrow> composable list \<Rightarrow> composable" where
  "sql_format template args = Composed (format_parts [] template args)"

text \<open>
  Truth value of a composable, as \<^verbatim>\<open>filter(None, query_parts)\<close> tests it: the classes
  of \<^verbatim>\<open>psycopg2.sql\<close> define neither \<^verbatim>\<open>__bool__\<close> nor \<^verbatim>\<open>__len__\<close>, so every
  composable is true, \<^verbatim>\<open>sql.SQL('')\<close> included.
\<close>

definition truthy :: "composable \<Rightarrow> bool" where
  "truthy c = True"

section \<open>The connection\<close>

text \<open>
  The connection is outside the builder. It is modelled by what the builder sees of it:
  a statement text and its parameters go in (\<^verbatim>\<open>cur.execute\<close>), and either rows come back
  (\<^verbatim>\<open>cur.fetchall\<close>) or an exception is raised. \<open>executed\<close> records every statement
  handed to the driver, oldest first.
\<close>

record connection =
  respond :: "string \<Rightarrow> pyval list \<Rightarrow> error + row list"
  executed :: "(string \<times> pyval list) list"

definition cur_execute ::
  "connection \<Rightarrow> composable \<Rightarrow> pyval list \<Rightarrow> connection \<times> (error + row list)" where
  "cur_execute c query params =
     (c\<lparr>executed := executed c @ [(as_string query, params)]\<rparr>,
      respond c (as_string query) params)"

section \<open>The builder (\<^verbatim>\<open>class Table\<close>)\<close>

text \<open>
  The attributes of a \<^verbatim>\<open>Table\<close>. A leading or trailing underscore of the source is
  dropped (\<^verbatim>\<open>_filters\<close> is \<open>filters\<close>, \<^verbatim>\<open>in_\<close> is \<open>Table_in\<close>), and a method
  \<^verbatim>\<open>Table.m\<close> is the function \<open>Table_m\<close>, which takes the table first and returns it
  changed where the method returns \<^verbatim>\<open>self\<close>.
\<close>

type_synonym filter_entry = "string \<times> string \<times> pyval"

record table =
  conn :: connection
  schema :: "string option"
  table_name :: string
  filters :: "filter_entry list"
  select_columns :: "string list"
  order_by :: "(string \<times> string) list"
  limit :: pyval
  offset :: pyval

text \<open>
  \<^verbatim>\<open>table_name.split('.', 1)\<close> for a name that holds a \<^verbatim>\<open>'.'\<close>: the text before the first
  one, and everything after it.
\<close>

definition split_first_dot :: "string \<Rightarrow> string \<times> string" where
  "split_first_dot s =
     (takeWhile (\<lambda>c. c \<noteq> CHR ''.'') s, tl (dropWhile (\<lambda>c. c \<noteq> CHR ''.'') s))"

definition Table_init :: "connection \<Rightarrow> string \<Rightarrow> table" where
  "Table_init c name =
     (let (sch, tn) =
            (if CHR ''.'' \<in> set name
             then (Some (fst (split_first_dot name)), snd (split_first_dot name))
             else (None, name))
      in \<lparr>conn = c, schema = sch, table_name = tn, filters = [],
          select_columns = [''*''], order_by = [], limit = VNone, offset = VNone\<rparr>)"

definition Table_select :: "table \<Rightarrow> string list \<Rightarrow> table" where
  "Table_select t columns = t\<lparr>select_columns := (if columns \<noteq> [] then columns else [''*''])\<rparr>"

definition Table_add_filter :: "table \<Rightarrow> string \<Rightarrow> string \<Rightarrow> pyval \<Rightarrow> table" where
  "Table_add_filter t column operator v = t\<lparr>filters := filters t @ [(column, operator, v)]\<rparr>"

definition Table_eq :: "table \<Rightarrow> string \<Rightarrow> pyval \<Rightarrow> table" where
  "Table_eq t column v = Table_add_filter t column ''='' v"

definition Table_neq :: "table \<Rightarrow> string \<Rightarrow> pyval \<Rightarrow> table" where
  "Table_neq t column v = Table_add_filter t column ''!='' v"

definition Table_gt :: "table \<Rightarrow> string \<Rightarrow> pyval \<Rightarrow> table" where
  "Table_gt t column v = Table_add_filter t column ''>'' v"

definition Table_gte :: "table \<Rightarrow> string \<Rightarrow> pyval \<Rightarrow> table" where
  "Table_gte t column v = Table_add_filter t column ''>='' v"

definition Table_lt :: "table \<Rightarrow> string \<Rightarrow> pyval \<Rightarrow> table" where
  "Table_lt t column v = Table_add_filter t column ''<'' v"

definition Table_lte :: "table \<Rightarrow> string \<Rightarrow> pyval \<Rightarrow> table" where
  "Table_lte t column v = Table_add_filter t column ''<='' v"

definition Table_like :: "table \<Rightarrow> string \<Rightarrow> pyval \<Rightarrow> table" where
  "Table_like t column pattern = Table_add_filter t column ''LIKE'' pattern"

definition Table_ilike :: "table \<Rightarrow> string \<Rightarrow> pyval \<Rightarrow> table" where
  "Table_ilike t column pattern = Table_add_filter t column ''ILIKE'' pattern"

text \<open>
  \<^verbatim>\<open>in_\<close> and \<^verbatim>\<open>not_in\<close> evaluate \<^verbatim>\<open>tuple(values)\<close> before they append, so an operand
  that cannot be iterated raises \<^verbatim>\<open>TypeError\<close> and nothing is appended.
\<close>

definition Table_in :: "table \<Rightarrow> string \<Rightarrow> pyval \<Rightarrow> error + table" where
  "Table_in t column values =
     (case py_tuple values of
        Inl e \<Rightarrow> Inl e
      | Inr tup \<Rightarrow> Inr (Table_add_filter t column ''IN'' tup))"

definition Table_not_in :: "table \<Rightarrow> string \<Rightarrow> pyval \<Rightarrow> error + table" where
  "Table_not_in t column values =
     (case py_tuple values of
        Inl e \<Rightarrow> Inl e
      | Inr tup \<Rightarrow> Inr (Table_add_filter t column ''NOT IN'' tup))"

definition Table_is_null :: "table \<Rightarrow> string \<Rightarrow> table" where
  "Table_is_null t column = Table_add_filter t column ''IS'' VNone"

definition Table_is_not_null :: "table \<Rightarrow> string \<Rightarrow> table" where
  "Table_is_not_null t column = Table_add_filter t column ''IS NOT'' VNone"

definition Table_order :: "table \<Rightarrow> string \<Rightarrow> bool \<Rightarrow> table" where
  "Table_order t column ascending =
     t\<lparr>order_by := order_by t @ [(column, if ascending then ''ASC'' else ''DESC'')]\<rparr>"

definition Table_limit :: "table \<Rightarrow> pyval \<Rightarrow> table" where
  "Table_limit t n = t\<lparr>limit := n\<rparr>"

definition Table_offset :: "table \<Rightarrow> pyval \<Rightarrow> table" where
  "Table_offset t n = t\<lparr>offset := n\<rparr>"

section \<open>Building the statement\<close>

definition Table_get_table_identifier :: "table \<Rightarrow> composable" where
  "Table_get_table_identifier t =
     (case schema t of
        None \<Rightarrow> Identifier (table_name t)
      | Some sch \<Rightarrow>
          if sch \<noteq> [] then sql_format ''{}.{}'' [Identifier sch, Identifier (table_name t)]
          else Identifier (table_name t))"

text \<open>
  The body of the loop of \<^verbatim>\<open>_build_where_clause\<close>: the condition one filter entry
  compiles to. \<^verbatim>\<open>len(value)\<close> raises \<^verbatim>\<open>TypeError\<close> for an operand with no length.
\<close>

definition where_condition :: "filter_entry \<Rightarrow> error + composable" where
  "where_condition f =
     (case f of (column, operator, v) \<Rightarrow>
        if upper operator \<in> set [''IN'', ''NOT IN''] then
          (case py_len v of
             Inl e \<Rightarrow> Inl e
           | Inr n \<Rightarrow>
               Inr (sql_format ''{} {} ({})''
                      [Identifier column, SQL operator,
                       sql_join (SQL '', '') (replicate n Placeholder)]))
        else if v = VNone \<and> upper operator \<in> set [''IS'', ''IS NOT''] then
          Inr (sql_format ''{} {} NULL'' [Identifier column, SQL operator])
        else
          Inr (sql_format ''{} {} {}'' [Identifier column, SQL operator, Placeholder]))"

text \<open>The loop itself, with \<open>conditions\<close> the list built so far.\<close>

fun where_loop :: "composable list \<Rightarrow> filter_entry list \<Rightarrow> error + composable list" where
  "where_loop conditions [] = Inr conditions"
| "where_loop conditions (f # fs) =
     (case where_condition f of
        Inl e \<Rightarrow> Inl e
      | Inr condition \<Rightarrow> where_loop (conditions @ [condition]) fs)"

definition Table_build_where_clause :: "table \<Rightarrow> error + composable" where
  "Table_build_where_clause t =
     (if filters t = [] then Inr (SQL [])
      else
        (case where_loop [] (filters t) of
           Inl e \<Rightarrow> Inl e
         | Inr conditions \<Rightarrow>
             Inr (sql_format '' WHERE {}'' [sql_join (SQL '' AND '') conditions])))"

definition Table_build_order_by_clause :: "table \<Rightarrow> composable" where
  "Table_build_order_by_clause t =
     (if order_by t = [] then SQL []
      else
        sql_format '' ORDER BY {}''
          [sql_join (SQL '', '')
             (map (\<lambda>(col, direction). sql_format ''{} {}'' [Identifier col, SQL direction])
                (order_by t))])"

definition Table_build_limit_clause :: "table \<Rightarrow> composable" where
  "Table_build_limit_clause t = (if limit t \<noteq> VNone then SQL '' LIMIT %s'' else SQL [])"

definition Table_build_offset_clause :: "table \<Rightarrow> composable" where
  "Table_build_offset_clause t = (if offset t \<noteq> VNone then SQL '' OFFSET %s'' else SQL [])"

text \<open>
  The loop of \<^verbatim>\<open>_get_filter_values\<close>, with \<open>values\<close> the list built so far.
  \<^verbatim>\<open>values.extend(value)\<close> raises \<^verbatim>\<open>TypeError\<close> for an operand that cannot be iterated.
\<close>

fun filter_values_loop :: "pyval list \<Rightarrow> filter_entry list \<Rightarrow> error + pyval list" where
  "filter_values_loop values [] = Inr values"
| "filter_values_loop values ((column, operator, v) # fs) =
     (if upper operator \<in> set [''IN'', ''NOT IN''] then
        (case py_iter v of
           Inl e \<Rightarrow> Inl e
         | Inr xs \<Rightarrow> filter_values_loop (values @ xs) fs)
      else if v \<noteq> VNone \<or> upper operator \<notin> set [''IS'', ''IS NOT''] then
        filter_values_loop (values @ [v]) fs
      else filter_values_loop values fs)"

definition Table_get_filter_values :: "table \<Rightarrow> error + pyval list" where
  "Table_get_filter_values t = filter_values_loop [] (filters t)"

section \<open>Terminal operations\<close>

text \<open>
  Each terminal operation first builds its statement and parameter list, which may raise,
  and then hands both to the driver. The first part is \<open>\<dots>_statement\<close>; the operation
  returns the table with the connection as the driver left it, and the rows or the
  exception.
\<close>

definition select_statement :: "table \<Rightarrow> error + composable \<times> pyval list" where
  "select_statement t =
     (let select_clause =
            (if select_columns t = [''*''] then SQL ''*''
             else sql_join (SQL '', '') (map Identifier (select_columns t)))
      in case Table_build_where_clause t of
           Inl e \<Rightarrow> Inl e
         | Inr where_clause \<Rightarrow>
             (let query_parts =
                    [sql_format ''SELECT {} FROM'' [select_clause],
                     Table_get_table_identifier t,
                     where_clause,
                     Table_build_order_by_clause t,
                     Table_build_limit_clause t,
                     Table_build_offset_clause t];
                  query = sql_join (SQL '' '') (filter truthy query_parts)
              in case Table_get_filter_values t of
                   Inl e \<Rightarrow> Inl e
                 | Inr params \<Rightarrow>
                     Inr (query,
                          params
                            @ (if limit t \<noteq> VNone then [limit t] else [])
                            @ (if offset t \<noteq> VNone then [offset t] else []))))"

text \<open>
  \<^verbatim>\<open>execute\<close> is the one operation with a handler around the driver call: a
  \<^verbatim>\<open>QueryCanceled\<close> becomes \<^verbatim>\<open>TimeoutError("Query execution timed out")\<close>.
\<close>

definition Table_execute :: "table \<Rightarrow> table \<times> (error + row list)" where
  "Table_execute t =
     (case select_statement t of
        Inl e \<Rightarrow> (t, Inl e)
      | Inr (query, params) \<Rightarrow>
          (case cur_execute (conn t) query params of
             (c, Inl e) \<Rightarrow>
               (t\<lparr>conn := c\<rparr>,
                if e = QueryCanceled then Inl (TimeoutError ''Query execution timed out'')
                else Inl e)
           | (c, Inr rows) \<Rightarrow> (t\<lparr>conn := c\<rparr>, Inr rows)))"

text \<open>
  The operations without a handler: whatever the driver raises leaves the method as it is.
\<close>

definition run_statement ::
  "table \<Rightarrow> error + composable \<times> pyval list \<Rightarrow> table \<times> (error + row list)" where
  "run_statement t stmt =
     (case stmt of
        Inl e \<Rightarrow> (t, Inl e)
      | Inr (query, params) \<Rightarrow>
          (case cur_execute (conn t) query params of (c, r) \<Rightarrow> (t\<lparr>conn := c\<rparr>, r)))"

text \<open>
  The payload of \<^verbatim>\<open>insert\<close> and \<^verbatim>\<open>upsert\<close>: one dict, or a list of dicts.
\<close>

datatype payload = OneDict row | DictList "row list"

text \<open>\<^verbatim>\<open>if isinstance(data, dict): data = [data]\<close>\<close>

fun as_list :: "payload \<Rightarrow> row list" where
  "as_list (OneDict d) = [d]"
| "as_list (DictList ds) = ds"

text \<open>\<^verbatim>\<open>[row[col] for col in columns]\<close>\<close>

fun row_cells :: "row \<Rightarrow> string list \<Rightarrow> error + pyval list" where
  "row_cells r [] = Inr []"
| "row_cells r (col # cols) =
     (case getitem r col of
        Inl e \<Rightarrow> Inl e
      | Inr v \<Rightarrow> (case row_cells r cols of Inl e \<Rightarrow> Inl e | Inr vs \<Rightarrow> Inr (v # vs)))"

text \<open>\<^verbatim>\<open>[[row[col] for col in columns] for row in data]\<close>\<close>

fun rows_cells :: "string list \<Rightarrow> row list \<Rightarrow> error + pyval list list" where
  "rows_cells columns [] = Inr []"
| "rows_cells columns (r # rs) =
     (case row_cells r columns of
        Inl e \<Rightarrow> Inl e
      | Inr vs \<Rightarrow> (case rows_cells columns rs of Inl e \<Rightarrow> Inl e | Inr vss \<Rightarrow> Inr (vs # vss)))"

definition insert_statement :: "table \<Rightarrow> payload \<Rightarrow> error + composable \<times> pyval list" where
  "insert_statement t payload =
     (let data = as_list payload
      in case data of
           [] \<Rightarrow> Inl IndexError
         | d0 # _ \<Rightarrow>
             (let columns = keys d0
              in case rows_cells columns data of
                   Inl e \<Rightarrow> Inl e
                 | Inr values \<Rightarrow>
                     Inr (sql_format ''INSERT INTO {} ({}) VALUES {} RETURNING *''
                            [Table_get_table_identifier t,
                             sql_join (SQL '', '') (map Identifier columns),
                             sql_join (SQL '', '') (replicate (length data) Placeholder)],
                          map VTuple values)))"

definition Table_insert :: "table \<Rightarrow> payload \<Rightarrow> table \<times> (error + row list)" where
  "Table_insert t payload = run_statement t (insert_statement t payload)"

text \<open>
  \<^verbatim>\<open>[col for col in columns if col not in conflict_columns]\<close>
\<close>

definition update_columns :: "string list \<Rightarrow> string list \<Rightarrow> string list" where
  "update_columns columns conflict_columns = filter (\<lambda>col. col \<notin> set conflict_columns) columns"

definition upsert_statement ::
  "table \<Rightarrow> payload \<Rightarrow> string list \<Rightarrow> error + composable \<times> pyval list" where
  "upsert_statement t payload conflict_columns =
     (let data = as_list payload
      in case data of
           [] \<Rightarrow> Inl IndexError
         | d0 # _ \<Rightarrow>
             (let columns = keys d0
              in case rows_cells columns data of
                   Inl e \<Rightarrow> Inl e
                 | Inr values \<Rightarrow>
                     Inr (sql_format
                            ''INSERT INTO {} ({}) VALUES {} ON CONFLICT ({}) DO UPDATE SET {} RETURNING *''
                            [Table_get_table_identifier t,
                             sql_join (SQL '', '') (map Identifier columns),
                             sql_join (SQL '', '') (replicate (length data) Placeholder),
                             sql_join (SQL '', '') (map Identifier conflict_columns),
                             sql_join (SQL '', '')
                               (map (\<lambda>col. sql_format ''{} = EXCLUDED.{}''
                                              [Identifier col, Identifier col])
                                  (update_columns columns conflict_columns))],
                          map VTuple values)))"

definition Table_upsert :: "table \<Rightarrow> payload \<Rightarrow> string list \<Rightarrow> table \<times> (error + row list)" where
  "Table_upsert t payload conflict_columns =
     run_statement t (upsert_statement t payload conflict_columns)"

definition update_statement :: "table \<Rightarrow> row \<Rightarrow> error + composable \<times> pyval list" where
  "update_statement t data =
     (let set_items = map (\<lambda>k. sql_format ''{} = {}'' [Identifier k, Placeholder]) (keys data)
      in case Table_build_where_clause t of
           Inl e \<Rightarrow> Inl e
         | Inr where_clause \<Rightarrow>
             (case Table_get_filter_values t of
                Inl e \<Rightarrow> Inl e
              | Inr params \<Rightarrow>
                  Inr (sql_format ''UPDATE {} SET {} {} RETURNING *''
                         [Table_get_table_identifier t, sql_join (SQL '', '') set_items,
                          where_clause],
                       vals data @ params)))"

definition Table_update :: "table \<Rightarrow> row \<Rightarrow> table \<times> (error + row list)" where
  "Table_update t data = run_statement t (update_statement t data)"

definition delete_statement :: "table \<Rightarrow> error + composable \<times> pyval list" where
  "delete_statement t =
     (case Table_build_where_clause t of
        Inl e \<Rightarrow> Inl e
      | Inr where_clause \<Rightarrow>
          (case Table_get_filter_values t of
             Inl e \<Rightarrow> Inl e
           | Inr params \<Rightarrow>
               Inr (sql_format ''DELETE FROM {} {} RETURNING *''
                      [Table_get_table_identifier t, where_clause],
                    params)))"

definition Table_delete :: "table \<Rightarrow> table \<times> (error + row list)" where
  "Table_delete t = run_statement t (delete_statement t)"

section \<open>Stored procedures (\<^verbatim>\<open>class RPC\<close>)\<close>

text \<open>
  \<^verbatim>\<open>params = params or {}\<close>: \<^verbatim>\<open>None\<close> and the empty dict both give the empty dict.
\<close>

definition params_or_empty :: "row option \<Rightarrow> row" where
  "params_or_empty params = (case params of None \<Rightarrow> [] | Some d \<Rightarrow> d)"

definition call_statement :: "string \<Rightarrow> row option \<Rightarrow> composable \<times> pyval list" where
  "call_statement procedure params =
     (let ps = params_or_empty params
      in (sql_format ''SELECT {}({})''
            [Identifier procedure,
             sql_join (SQL '', '')
               (map (\<lambda>k. sql_format ''{}:={}'' [Identifier k, Placeholder]) (keys ps))],
          vals ps))"

text \<open>\<^verbatim>\<open>cur.fetchone()\<close>: the first row, or \<^verbatim>\<open>None\<close> when there is none.\<close>

definition fetchone :: "row list \<Rightarrow> row option" where
  "fetchone rows = (case rows of [] \<Rightarrow> None | r # _ \<Rightarrow> Some r)"

text \<open>
  \<^verbatim>\<open>result[procedure] if result else None\<close>: \<^verbatim>\<open>None\<close> and the empty row are false.
\<close>

definition unwrap_result :: "string \<Rightarrow> row option \<Rightarrow> error + pyval" where
  "unwrap_result procedure result =
     (case result of
        None \<Rightarrow> Inr VNone
      | Some r \<Rightarrow> if r \<noteq> [] then getitem r procedure else Inr VNone)"

definition RPC_call ::
  "connection \<Rightarrow> string \<Rightarrow> row option \<Rightarrow> connection \<times> (error + pyval)" where
  "RPC_call c procedure params =
     (case call_statement procedure params of
        (query, ps) \<Rightarrow>
          (case cur_execute c query ps of
             (c', Inl e) \<Rightarrow> (c', Inl e)
           | (c', Inr rows) \<Rightarrow> (c', unwrap_result procedure (fetchone rows))))"

section \<open>Chained calls, placeholder counts and a fixed connection\<close>

text \<open>
  One call of a builder method, so that a chain \<^verbatim>\<open>t.eq(..).select(..).limit(..)\<close> is a list
  of calls. \<open>AddFilter\<close> is a direct call of \<^verbatim>\<open>_add_filter\<close>.
\<close>

datatype call =
    Select "string list"
  | Eq string pyval
  | Neq string pyval
  | Gt string pyval
  | Gte string pyval
  | Lt string pyval
  | Lte string pyval
  | Like string pyval
  | Ilike string pyval
  | In string pyval
  | NotIn string pyval
  | IsNull string
  | IsNotNull string
  | AddFilter string string pyval
  | Order string bool
  | Limit pyval
  | Offset pyval

fun apply_call :: "table \<Rightarrow> call \<Rightarrow> error + table" where
  "apply_call t (Select columns) = Inr (Table_select t columns)"
| "apply_call t (Eq column v) = Inr (Table_eq t column v)"
| "apply_call t (Neq column v) = Inr (Table_neq t column v)"
| "apply_call t (Gt column v) = Inr (Table_gt t column v)"
| "apply_call t (Gte column v) = Inr (Table_gte t column v)"
| "apply_call t (Lt column v) = Inr (Table_lt t column v)"
| "apply_call t (Lte column v) = Inr (Table_lte t column v)"
| "apply_call t (Like column pattern) = Inr (Table_like t column pattern)"
| "apply_call t (Ilike column pattern) = Inr (Table_ilike t column pattern)"
| "apply_call t (In column values) = Table_in t column values"
| "apply_call t (NotIn column values) = Table_not_in t column values"
| "apply_call t (IsNull column) = Inr (Table_is_null t column)"
| "apply_call t (IsNotNull column) = Inr (Table_is_not_null t column)"
| "apply_call t (AddFilter column operator v) = Inr (Table_add_filter t column operator v)"
| "apply_call t (Order column ascending) = Inr (Table_order t column ascending)"
| "apply_call t (Limit n) = Inr (Table_limit t n)"
| "apply_call t (Offset n) = Inr (Table_offset t n)"

text \<open>
  A chain of calls, each on the table the one before returned; an exception ends it.
\<close>

fun chain :: "table \<Rightarrow> call list \<Rightarrow> error + table" where
  "chain t [] = Inr t"
| "chain t (c # cs) = (case apply_call t c of Inl e \<Rightarrow> Inl e | Inr t' \<Rightarrow> chain t' cs)"

text \<open>The number of \<^verbatim>\<open>sql.Placeholder\<close> objects in a composable.\<close>

fun placeholders :: "composable \<Rightarrow> nat" where
  "placeholders (SQL s) = 0"
| "placeholders (Identifier s) = 0"
| "placeholders Placeholder = 1"
| "placeholders (Composed xs) = sum_list (map placeholders xs)"

text \<open>
  \<^verbatim>\<open>sep.join(strings)\<close> on plain strings, to write down the text a joined composable
  renders to.
\<close>

definition str_join :: "string \<Rightarrow> string list \<Rightarrow> string" where
  "str_join sep xs = concat (intersperse sep xs)"

text \<open>
  A connection on which nothing has been executed yet and whose driver answers every
  statement with \<open>reply\<close>.
\<close>

definition answering :: "error + row list \<Rightarrow> connection" where
  "answering reply = \<lparr>respond = (\<lambda>query params. reply), executed = []\<rparr>"

text \<open>Two tables to evaluate the operations on.\<close>

definition example_table :: table where
  "example_table = Table_init (answering (Inr [])) ''t''"

definition filtered_twice :: table where
  "filtered_twice = Table_eq (Table_eq example_table ''a'' (VInt 1)) ''a'' (VInt 1)"

definition three_filters :: table where
  "three_filters =
     Table_is_null
       (Table_add_filter (Table_eq example_table ''a'' (VInt 1))
          ''b'' ''IN'' (VTuple [VInt 2, VInt 3]))
       ''c''"

definition round_trip :: table where
  "round_trip =
     Table_limit
       (Table_order (Table_gt (Table_eq example_table ''a'' (VInt 1)) ''b'' (VInt 5)) ''c'' False)
       (VInt 3)"

definition paged :: table where
  "paged =
     Table_offset
       (Table_limit (Table_order (Table_select example_table [''x'', ''y'']) ''x'' True)
          (VInt 10))
       (VInt 5)"

section \<open>Splitting the table name\<close>

lemma split_first_dot_at:
  "CHR ''.'' \<notin> set before \<Longrightarrow> split_first_dot (before @ CHR ''.'' # rest) = (before, rest)"
  by (induction before) (auto simp: split_first_dot_def)

text \<open>
  C10. A table name is split at its first \<open>.\<close> only: when \<open>before\<close> holds no \<open>.\<close>, the
  name \<open>before.rest\<close> gives the schema \<open>before\<close> and the relation name \<open>rest\<close>, whatever
  further \<open>.\<close> characters \<open>rest\<close> holds, and every name that holds a \<open>.\<close> is split in
  this way; a name with no \<open>.\<close> gives no schema and is the relation name as a whole.
\<close>

theorem table_name_split_at_first_dot:
  "(CHR ''.'' \<notin> set before \<longrightarrow>
      schema (Table_init c (before @ CHR ''.'' # rest)) = Some before \<and>
      table_name (Table_init c (before @ CHR ''.'' # rest)) = rest) \<and>
   (CHR ''.'' \<in> set dotted \<longrightarrow>
      (\<exists>b r. dotted = b @ CHR ''.'' # r \<and> CHR ''.'' \<notin> set b \<and>
         schema (Table_init c dotted) = Some b \<and> table_name (Table_init c dotted) = r)) \<and>
   (CHR ''.'' \<notin> set name \<longrightarrow>
      schema (Table_init c name) = None \<and> table_name (Table_init c name) = name)"
proof (intro conjI impI)
  assume "CHR ''.'' \<notin> set before"
  then show "schema (Table_init c (before @ CHR ''.'' # rest)) = Some before"
    "table_name (Table_init c (before @ CHR ''.'' # rest)) = rest"
    by (simp_all add: Table_init_def split_first_dot_at)
next
  assume "CHR ''.'' \<in> set dotted"
  then obtain b r where d: "dotted = b @ CHR ''.'' # r" and b: "CHR ''.'' \<notin> set b"
    by (auto dest: split_list_first)
  from b have "schema (Table_init c (b @ CHR ''.'' # r)) = Some b"
    "table_name (Table_init c (b @ CHR ''.'' # r)) = r"
    by (simp_all add: Table_init_def split_first_dot_at)
  with d b show "\<exists>b r. dotted = b @ CHR ''.'' # r \<and> CHR ''.'' \<notin> set b \<and>
         schema (Table_init c dotted) = Some b \<and> table_name (Table_init c dotted) = r"
    by blast
next
  assume "CHR ''.'' \<notin> set name"
  then show "schema (Table_init c name) = None" "table_name (Table_init c name) = name"
    by (simp_all add: Table_init_def)
qed

theorem table_name_split_at_first_dot_witness:
  "CHR ''.'' \<notin> set ''public'' \<and>
   schema (Table_init (answering (Inr [])) ''public.users.v2'') = Some ''public'' \<and>
   table_name (Table_init (answering (Inr [])) ''public.users.v2'') = ''users.v2'' \<and>
   CHR ''.'' \<in> set ''a.b.c'' \<and>
   (\<exists>b r. ''a.b.c'' = b @ CHR ''.'' # r \<and> CHR ''.'' \<notin> set b \<and>
      schema (Table_init (answering (Inr [])) ''a.b.c'') = Some b \<and>
      table_name (Table_init (answering (Inr [])) ''a.b.c'') = r) \<and>
   CHR ''.'' \<notin> set ''users'' \<and>
   schema (Table_init (answering (Inr [])) ''users'') = None \<and>
   table_name (Table_init (answering (Inr [])) ''users'') = ''users''"
  using table_name_split_at_first_dot
    [where before = "''public''" and c = "answering (Inr [])" and rest = "''users.v2''"
       and dotted = "''a.b.c''" and name = "''users''"]
  by simp

section \<open>Chained builder calls\<close>

lemmas builder_defs =
  Table_select_def Table_add_filter_def Table_eq_def Table_neq_def Table_gt_def Table_gte_def
  Table_lt_def Table_lte_def Table_like_def Table_ilike_def Table_in_def Table_not_in_def
  Table_is_null_def Table_is_not_null_def Table_order_def Table_limit_def Table_offset_def

lemma chain_append:
  "chain t (cs @ ds) = (case chain t cs of Inl e \<Rightarrow> Inl e | Inr t' \<Rightarrow> chain t' ds)"
  by (induction cs arbitrary: t) (auto split: sum.splits)

lemma apply_call_grows:
  "apply_call t c = Inr t' \<Longrightarrow>
     prefix (filters t) (filters t') \<and> prefix (order_by t) (order_by t')"
  by (cases c) (auto simp: builder_defs split: sum.splits)

lemma chain_grows:
  "chain t cs = Inr t' \<Longrightarrow>
     prefix (filters t) (filters t') \<and> prefix (order_by t) (order_by t')"
proof (induction cs arbitrary: t)
  case Nil
  then show ?case by simp
next
  case (Cons c cs)
  then obtain u where u: "apply_call t c = Inr u" and rest: "chain u cs = Inr t'"
    by (auto split: sum.splits)
  from apply_call_grows [OF u] Cons.IH [OF rest] show ?case
    by (auto intro: prefix_order.trans)
qed

text \<open>
  C9. Over any chain of builder calls \<open>cs\<close> that runs to its end, the filters and the
  ordering the table had before are a prefix of the ones it has after: entries are
  only ever added at the end. A further \<^verbatim>\<open>_add_filter\<close> or \<^verbatim>\<open>order\<close> call adds exactly
  its own entry at the end. A further \<^verbatim>\<open>select\<close>, \<^verbatim>\<open>limit\<close> or \<^verbatim>\<open>offset\<close> call
  decides the projection, the limit or the offset alone, whatever the chain before it
  had set, and \<^verbatim>\<open>select\<close> leaves the filters and the ordering as they were.
\<close>

theorem builder_append_and_overwrite:
  "(chain t cs = Inr t' \<longrightarrow>
      prefix (filters t) (filters t') \<and> prefix (order_by t) (order_by t')) \<and>
   (chain t (cs @ [AddFilter fcol operator v]) = Inr uf \<longrightarrow>
      (\<exists>t'. chain t cs = Inr t' \<and> filters uf = filters t' @ [(fcol, operator, v)])) \<and>
   (chain t (cs @ [Order ocol ascending]) = Inr ur \<longrightarrow>
      (\<exists>t'. chain t cs = Inr t' \<and>
         order_by ur = order_by t' @ [(ocol, if ascending then ''ASC'' else ''DESC'')])) \<and>
   (chain t (cs @ [Select columns]) = Inr us \<longrightarrow>
      select_columns us = (if columns \<noteq> [] then columns else [''*'']) \<and>
      (\<exists>t'. chain t cs = Inr t' \<and> filters us = filters t' \<and> order_by us = order_by t')) \<and>
   (chain t (cs @ [Limit n]) = Inr ul \<longrightarrow> limit ul = n) \<and>
   (chain t (cs @ [Offset m]) = Inr uo \<longrightarrow> offset uo = m)"
  using chain_grows [of t cs t']
  by (auto simp: chain_append Table_select_def Table_limit_def Table_offset_def
      Table_add_filter_def Table_order_def split: sum.splits)

theorem builder_append_and_overwrite_witness:
  "chain filtered_twice [Select [''a''], AddFilter ''b'' ''>'' (VInt 2)]
     = Inr (Table_add_filter (Table_select filtered_twice [''a'']) ''b'' ''>'' (VInt 2)) \<and>
   prefix (filters filtered_twice)
     (filters (Table_add_filter (Table_select filtered_twice [''a'']) ''b'' ''>'' (VInt 2))) \<and>
   chain example_table ([Eq ''a'' (VInt 1), Eq ''a'' (VInt 1)] @ [AddFilter ''b'' ''>'' (VInt 2)])
     = Inr (Table_add_filter filtered_twice ''b'' ''>'' (VInt 2)) \<and>
   chain example_table ([Eq ''a'' (VInt 1), Eq ''a'' (VInt 1)] @ [Order ''a'' False])
     = Inr (Table_order filtered_twice ''a'' False) \<and>
   chain example_table ([Eq ''a'' (VInt 1), Eq ''a'' (VInt 1)] @ [Select []])
     = Inr (Table_select filtered_twice []) \<and>
   chain example_table ([Eq ''a'' (VInt 1), Eq ''a'' (VInt 1)] @ [Limit (VInt 3)])
     = Inr (Table_limit filtered_twice (VInt 3)) \<and>
   chain example_table ([Eq ''a'' (VInt 1), Eq ''a'' (VInt 1)] @ [Offset (VInt 5)])
     = Inr (Table_offset filtered_twice (VInt 5)) \<and>
   filters (Table_select filtered_twice []) = [(''a'', ''='', VInt 1), (''a'', ''='', VInt 1)] \<and>
   select_columns (Table_select filtered_twice []) = [''*''] \<and>
   limit (Table_limit filtered_twice (VInt 3)) = VInt 3 \<and>
   offset (Table_offset filtered_twice (VInt 5)) = VInt 5"
  using builder_append_and_overwrite
    [where t = filtered_twice
       and cs = "[Select [''a''], AddFilter ''b'' ''>'' (VInt 2)]"
       and t' = "Table_add_filter (Table_select filtered_twice [''a'']) ''b'' ''>'' (VInt 2)"]
    builder_append_and_overwrite
    [where t = example_table and cs = "[Eq ''a'' (VInt 1), Eq ''a'' (VInt 1)]"
       and fcol = "''b''" and operator = "''>''" and v = "VInt 2"
       and uf = "Table_add_filter filtered_twice ''b'' ''>'' (VInt 2)"
       and ocol = "''a''" and ascending = False
       and ur = "Table_order filtered_twice ''a'' False"
       and columns = "[]" and us = "Table_select filtered_twice []"
       and n = "VInt 3" and ul = "Table_limit filtered_twice (VInt 3)"
       and m = "VInt 5" and uo = "Table_offset filtered_twice (VInt 5)"]
  by (simp add: builder_defs example_table_def filtered_twice_def Table_init_def)

section \<open>The loops over the filters\<close>

lemma upper_operators [simp]:
  "upper ''IN'' = ''IN''" "upper ''NOT IN'' = ''NOT IN''"
  "upper ''IS'' = ''IS''" "upper ''IS NOT'' = ''IS NOT''"
  by (simp_all add: upper_def upper_char_def)

lemma py_iter_error: "py_iter v = Inl e \<Longrightarrow> e = TypeError"
  by (cases v) auto

lemma py_len_error: "py_len v = Inl e \<Longrightarrow> e = TypeError"
  by (cases v) auto

lemma py_len_iter: "py_iter v = Inr xs \<Longrightarrow> py_len v = Inr (length xs)"
  by (cases v) auto

lemma py_iter_len: "py_len v = Inr n \<Longrightarrow> \<exists>xs. py_iter v = Inr xs \<and> length xs = n"
  by (cases v) auto

lemma where_condition_error: "where_condition f = Inl e \<Longrightarrow> e = TypeError"
  by (auto simp: where_condition_def split: prod.splits if_splits sum.splits
      dest: py_len_error)

lemma where_loop_error: "where_loop acc fs = Inl e \<Longrightarrow> e = TypeError"
  by (induction fs arbitrary: acc) (auto split: sum.splits dest: where_condition_error)

lemma where_loop_acc:
  "where_loop acc fs =
     (case where_loop [] fs of Inl e \<Rightarrow> Inl e | Inr cs \<Rightarrow> Inr (acc @ cs))"
proof (induction fs arbitrary: acc)
  case Nil
  then show ?case by simp
next
  case (Cons f fs)
  show ?case
  proof (cases "where_condition f")
    case (Inl e)
    then show ?thesis by simp
  next
    case (Inr c)
    from Cons.IH [of "acc @ [c]"] Cons.IH [of "[c]"] Inr show ?thesis
      by (simp split: sum.splits)
  qed
qed

lemma where_loop_append:
  "where_loop [] (fs @ gs) =
     (case where_loop [] fs of
        Inl e \<Rightarrow> Inl e
      | Inr cs \<Rightarrow> (case where_loop [] gs of Inl e \<Rightarrow> Inl e | Inr ds \<Rightarrow> Inr (cs @ ds)))"
proof (induction fs)
  case Nil
  then show ?case by (simp split: sum.splits)
next
  case (Cons f fs)
  show ?case
  proof (cases "where_condition f")
    case (Inl e)
    then show ?thesis by simp
  next
    case (Inr c)
    from Cons.IH Inr where_loop_acc [of "[c]" "fs @ gs"] where_loop_acc [of "[c]" fs]
    show ?thesis
      by (simp split: sum.splits)
  qed
qed

lemma where_clause_bad_last:
  assumes "where_condition f = Inl e"
  shows "Table_build_where_clause (t\<lparr>filters := filters t @ [f]\<rparr>) = Inl TypeError"
proof -
  have "\<exists>e'. where_loop [] (filters t @ [f]) = Inl e'"
    using assms by (simp add: where_loop_append split: sum.splits)
  then obtain e' where e': "where_loop [] (filters t @ [f]) = Inl e'" ..
  then have "e' = TypeError" by (rule where_loop_error)
  with e' show ?thesis by (simp add: Table_build_where_clause_def)
qed

section \<open>Appending a filter\<close>

text \<open>
  C1, as the code has it. No filter-append method looks at the shape of its operand:
  \<^verbatim>\<open>_add_filter\<close> appends the entry as given, and every builder call other than
  \<^verbatim>\<open>in_\<close> and \<^verbatim>\<open>not_in\<close> returns a table. \<^verbatim>\<open>in_\<close> and \<^verbatim>\<open>not_in\<close> raise
  \<^verbatim>\<open>TypeError\<close> when their operand cannot be iterated, and otherwise append the tuple of
  its elements. An \<open>IN\<close> or \<open>NOT IN\<close> entry whose operand has no length raises
  \<^verbatim>\<open>TypeError\<close> only when the WHERE clause is built, and an \<open>IS\<close> or \<open>IS NOT\<close> entry with
  an operand other than \<^verbatim>\<open>None\<close> compiles to the ordinary one-placeholder condition.
\<close>

theorem filter_append_unchecked:
  "filters (Table_add_filter t column operator v) = filters t @ [(column, operator, v)] \<and>
   ((\<forall>col x. c \<noteq> In col x \<and> c \<noteq> NotIn col x) \<longrightarrow> (\<exists>t'. apply_call t c = Inr t')) \<and>
   (py_iter v1 = Inl e1 \<longrightarrow>
      Table_in t column v1 = Inl TypeError \<and> Table_not_in t column v1 = Inl TypeError) \<and>
   (py_iter v2 = Inr xs \<longrightarrow>
      Table_in t column v2 = Inr (Table_add_filter t column ''IN'' (VTuple xs)) \<and>
      Table_not_in t column v2 = Inr (Table_add_filter t column ''NOT IN'' (VTuple xs))) \<and>
   (upper op3 \<in> {''IN'', ''NOT IN''} \<and> py_len v3 = Inl e3 \<longrightarrow>
      Table_build_where_clause (Table_add_filter t column op3 v3) = Inl TypeError) \<and>
   (upper op4 \<in> {''IS'', ''IS NOT''} \<and> v4 \<noteq> VNone \<longrightarrow>
      where_condition (column, op4, v4)
        = Inr (sql_format ''{} {} {}'' [Identifier column, SQL op4, Placeholder]))"
proof (intro conjI impI)
  show "filters (Table_add_filter t column operator v) = filters t @ [(column, operator, v)]"
    by (simp add: Table_add_filter_def)
next
  assume "\<forall>col x. c \<noteq> In col x \<and> c \<noteq> NotIn col x"
  then show "\<exists>t'. apply_call t c = Inr t'"
    by (cases c) auto
next
  assume "py_iter v1 = Inl e1"
  then have "py_iter v1 = Inl TypeError" by (auto dest: py_iter_error)
  then show "Table_in t column v1 = Inl TypeError" "Table_not_in t column v1 = Inl TypeError"
    by (simp_all add: Table_in_def Table_not_in_def py_tuple_def)
next
  assume "py_iter v2 = Inr xs"
  then show "Table_in t column v2 = Inr (Table_add_filter t column ''IN'' (VTuple xs))"
    "Table_not_in t column v2 = Inr (Table_add_filter t column ''NOT IN'' (VTuple xs))"
    by (simp_all add: Table_in_def Table_not_in_def py_tuple_def)
next
  assume "upper op3 \<in> {''IN'', ''NOT IN''} \<and> py_len v3 = Inl e3"
  then have "where_condition (column, op3, v3) = Inl e3"
    by (auto simp: where_condition_def)
  then show "Table_build_where_clause (Table_add_filter t column op3 v3) = Inl TypeError"
    unfolding Table_add_filter_def by (rule where_clause_bad_last)
next
  assume "upper op4 \<in> {''IS'', ''IS NOT''} \<and> v4 \<noteq> VNone"
  then show "where_condition (column, op4, v4)
        = Inr (sql_format ''{} {} {}'' [Identifier column, SQL op4, Placeholder])"
    by (auto simp: where_condition_def)
qed

theorem filter_append_unchecked_witness:
  "(\<forall>col x. Eq ''c'' VNone \<noteq> In col x \<and> Eq ''c'' VNone \<noteq> NotIn col x) \<and>
   (\<exists>t'. apply_call example_table (Eq ''c'' VNone) = Inr t') \<and>
   py_iter (VInt 5) = Inl TypeError \<and>
   Table_in example_table ''c'' (VInt 5) = Inl TypeError \<and>
   py_iter (VList [VInt 1, VInt 2]) = Inr [VInt 1, VInt 2] \<and>
   Table_not_in example_table ''c'' (VList [VInt 1, VInt 2])
     = Inr (Table_add_filter example_table ''c'' ''NOT IN'' (VTuple [VInt 1, VInt 2])) \<and>
   upper ''IN'' \<in> {''IN'', ''NOT IN''} \<and> py_len (VInt 5) = Inl TypeError \<and>
   Table_build_where_clause (Table_add_filter example_table ''c'' ''IN'' (VInt 5))
     = Inl TypeError \<and>
   upper ''IS'' \<in> {''IS'', ''IS NOT''} \<and> VInt 5 \<noteq> VNone \<and>
   where_condition (''c'', ''IS'', VInt 5)
     = Inr (sql_format ''{} {} {}'' [Identifier ''c'', SQL ''IS'', Placeholder])"
  using filter_append_unchecked
    [where t = example_table and column = "''c''" and c = "Eq ''c'' VNone"
       and ?v1.0 = "VInt 5" and ?e1.0 = TypeError
       and ?v2.0 = "VList [VInt 1, VInt 2]" and xs = "[VInt 1, VInt 2]"
       and ?op3.0 = "''IN''" and ?v3.0 = "VInt 5" and ?e3.0 = TypeError
       and ?op4.0 = "''IS''" and ?v4.0 = "VInt 5"]
  by simp

text \<open>
  The claim as written fails: through \<^verbatim>\<open>_add_filter\<close> an \<open>IS\<close> entry with the operand
  \<open>5\<close> and an \<open>IN\<close> entry with the operand \<open>5\<close> are both appended, and the call returns;
  \<^verbatim>\<open>in_\<close> with the operand \<open>5\<close> does fail when it is called, with \<^verbatim>\<open>TypeError\<close>.
\<close>

theorem filter_append_counterexample:
  "apply_call example_table (AddFilter ''c'' ''IS'' (VInt 5))
     = Inr (example_table\<lparr>filters := [(''c'', ''IS'', VInt 5)]\<rparr>) \<and>
   apply_call example_table (AddFilter ''c'' ''IN'' (VInt 5))
     = Inr (example_table\<lparr>filters := [(''c'', ''IN'', VInt 5)]\<rparr>) \<and>
   apply_call example_table (In ''c'' (VInt 5)) = Inl TypeError"
  by (simp add: Table_add_filter_def Table_in_def py_tuple_def example_table_def
      Table_init_def)

section \<open>The WHERE clause and its parameters\<close>

lemma map_intersperse: "map f (intersperse s xs) = intersperse (f s) (map f xs)"
  by (induction s xs rule: intersperse.induct) auto

lemma as_string_sql_join:
  "as_string (sql_join sep xs) = str_join (as_string sep) (map as_string xs)"
  by (simp add: sql_join_def str_join_def map_intersperse)

lemma placeholders_intersperse_SQL:
  "sum_list (map placeholders (intersperse (SQL s) xs)) = sum_list (map placeholders xs)"
  by (induction "SQL s" xs rule: intersperse.induct) auto

lemma placeholders_sql_join:
  "placeholders (sql_join (SQL s) xs) = sum_list (map placeholders xs)"
  by (simp add: sql_join_def placeholders_intersperse_SQL)

lemma filter_values_loop_acc:
  "filter_values_loop acc fs =
     (case filter_values_loop [] fs of Inl e \<Rightarrow> Inl e | Inr vs \<Rightarrow> Inr (acc @ vs))"
proof (induction fs arbitrary: acc)
  case Nil
  then show ?case by simp
next
  case (Cons f fs)
  obtain column operator v where f: "f = (column, operator, v)"
    by (cases f) auto
  have step: "\<And>a b. filter_values_loop (a @ b) fs =
      (case filter_values_loop b fs of Inl e \<Rightarrow> Inl e | Inr vs \<Rightarrow> Inr (a @ vs))"
  proof -
    fix a b :: "pyval list"
    from Cons.IH [of "a @ b"] Cons.IH [of b] show "filter_values_loop (a @ b) fs =
      (case filter_values_loop b fs of Inl e \<Rightarrow> Inl e | Inr vs \<Rightarrow> Inr (a @ vs))"
      by (simp split: sum.splits)
  qed
  from step [of acc] step [of acc "[]"] show ?case
    unfolding f by (simp split: sum.splits)
qed

lemma filter_values_loop_continue:
  "filter_values_loop acc (fs @ gs) =
     (case filter_values_loop acc fs of Inl e \<Rightarrow> Inl e | Inr vs \<Rightarrow> filter_values_loop vs gs)"
proof (induction fs arbitrary: acc)
  case Nil
  then show ?case by simp
next
  case (Cons f fs)
  obtain column operator v where f: "f = (column, operator, v)"
    by (cases f) auto
  show ?case
    unfolding f by (simp add: Cons.IH split: sum.splits)
qed

lemma filter_values_loop_append:
  "filter_values_loop [] (fs @ gs) =
     (case filter_values_loop [] fs of
        Inl e \<Rightarrow> Inl e
      | Inr vs \<Rightarrow>
          (case filter_values_loop [] gs of Inl e \<Rightarrow> Inl e | Inr ws \<Rightarrow> Inr (vs @ ws)))"
proof (cases "filter_values_loop [] fs")
  case (Inl e)
  then show ?thesis by (simp add: filter_values_loop_continue)
next
  case (Inr vs)
  with filter_values_loop_acc [of vs gs] show ?thesis
    by (simp add: filter_values_loop_continue)
qed

lemma filter_values_single:
  "filter_values_loop [] [(column, operator, v)] =
     (if upper operator \<in> {''IN'', ''NOT IN''} then py_iter v
      else if v \<noteq> VNone \<or> upper operator \<notin> {''IS'', ''IS NOT''} then Inr [v]
      else Inr [])"
  by (simp split: sum.splits)

lemma in_condition:
  assumes "upper operator \<in> {''IN'', ''NOT IN''}" and "py_iter v = Inr vs"
    and "where_condition (column, operator, v) = Inr c"
  shows "placeholders c = length vs"
    and "as_string c = quote_ident column @ '' '' @ operator @ '' (''
           @ str_join '', '' (replicate (length vs) ''%s'') @ '')''"
proof -
  from assms(2) have len: "py_len v = Inr (length vs)" by (rule py_len_iter)
  with assms(1,3) have c: "c = sql_format ''{} {} ({})''
      [Identifier column, SQL operator,
       sql_join (SQL '', '') (replicate (length vs) Placeholder)]"
    by (auto simp: where_condition_def)
  show "placeholders c = length vs"
    unfolding c by (simp add: sql_format_def placeholders_sql_join sum_list_replicate)
  show "as_string c = quote_ident column @ '' '' @ operator @ '' (''
           @ str_join '', '' (replicate (length vs) ''%s'') @ '')''"
    unfolding c by (simp add: sql_format_def as_string_sql_join)
qed

lemma is_null_condition:
  assumes "upper operator \<in> {''IS'', ''IS NOT''}"
    and "where_condition (column, operator, VNone) = Inr c"
  shows "placeholders c = 0"
    and "as_string c = quote_ident column @ '' '' @ operator @ '' NULL''"
proof -
  from assms have c: "c = sql_format ''{} {} NULL'' [Identifier column, SQL operator]"
    by (auto simp: where_condition_def)
  show "placeholders c = 0"
    unfolding c by (simp add: sql_format_def)
  show "as_string c = quote_ident column @ '' '' @ operator @ '' NULL''"
    unfolding c by (simp add: sql_format_def)
qed


lemma where_loop_split:
  assumes "where_loop [] (pre @ f # post) = Inr conds"
  shows "\<exists>cs1 c cs2. where_loop [] pre = Inr cs1 \<and> where_condition f = Inr c \<and>
           where_loop [] post = Inr cs2 \<and> conds = cs1 @ c # cs2"
proof -
  from assms obtain cs1 ds where cs1: "where_loop [] pre = Inr cs1"
    and ds: "where_loop [] (f # post) = Inr ds" and conds: "conds = cs1 @ ds"
    by (auto simp: where_loop_append split: sum.splits)
  from ds obtain c where c: "where_condition f = Inr c" and rest: "where_loop [c] post = Inr ds"
    by (auto split: sum.splits)
  from rest where_loop_acc [of "[c]" post]
  obtain cs2 where cs2: "where_loop [] post = Inr cs2" and "ds = c # cs2"
    by (auto split: sum.splits)
  with cs1 c conds show ?thesis by simp
qed

lemma filter_values_loop_split:
  assumes "filter_values_loop [] (pre @ f # post) = Inr params"
  shows "\<exists>ps1 vs ps2. filter_values_loop [] pre = Inr ps1 \<and>
           filter_values_loop [] [f] = Inr vs \<and>
           filter_values_loop [] post = Inr ps2 \<and> params = ps1 @ vs @ ps2"
proof -
  from assms have "filter_values_loop [] (pre @ [f] @ post) = Inr params" by simp
  then show ?thesis
    unfolding filter_values_loop_append [of pre] filter_values_loop_append [of "[f]"]
    by (auto split: sum.splits)
qed

lemma filters_three_filters:
  "filters three_filters
     = [(''a'', ''='', VInt 1), (''b'', ''IN'', VTuple [VInt 2, VInt 3]), (''c'', ''IS'', VNone)]"
  by (simp add: three_filters_def builder_defs example_table_def Table_init_def)

lemma where_three_filters:
  "Table_build_where_clause three_filters
     = Inr (sql_format '' WHERE {}''
         [sql_join (SQL '' AND '')
            [sql_format ''{} {} {}'' [Identifier ''a'', SQL ''='', Placeholder],
             sql_format ''{} {} ({})''
               [Identifier ''b'', SQL ''IN'', sql_join (SQL '', '') [Placeholder, Placeholder]],
             sql_format ''{} {} NULL'' [Identifier ''c'', SQL ''IS'']]])"
  by (simp add: Table_build_where_clause_def filters_three_filters where_condition_def
      upper_def upper_char_def)

lemma values_three_filters:
  "Table_get_filter_values three_filters = Inr [VInt 1, VInt 2, VInt 3]"
  by (simp add: Table_get_filter_values_def filters_three_filters upper_def upper_char_def)

text \<open>
  C6. Take any entry \<open>(column, operator, v)\<close> of the filters, with the entries \<open>pre\<close> before
  it and \<open>post\<close> after it, of a table whose WHERE clause and filter values are built.
  The clause is \<open>WHERE\<close> and the conditions joined by \<open>AND\<close>, with the entry's condition
  \<open>c\<close> at the entry's place, and the parameter list is the values of \<open>pre\<close>, then the
  entry's values \<open>vs\<close>, then the values of \<open>post\<close>. When the operator is \<open>IN\<close> or
  \<open>NOT IN\<close> (in any letter case), \<open>vs\<close> is the operand's elements in their order, \<open>c\<close>
  holds exactly \<open>length vs\<close> placeholders and renders as
  \<open>quote(column) operator (%s, \<dots>, %s)\<close>. When the operator is \<open>IS\<close> or \<open>IS NOT\<close> and the
  operand is \<^verbatim>\<open>None\<close>, \<open>vs\<close> is empty, \<open>c\<close> holds no placeholder and renders as
  \<open>quote(column) operator NULL\<close>.
\<close>

theorem in_and_is_null_entries:
  assumes "filters t = pre @ (column, operator, v) # post"
    and "Table_build_where_clause t = Inr w"
    and "Table_get_filter_values t = Inr params"
  shows "\<exists>cs1 c cs2 ps1 vs ps2.
           where_loop [] pre = Inr cs1 \<and> where_condition (column, operator, v) = Inr c \<and>
           where_loop [] post = Inr cs2 \<and>
           w = sql_format '' WHERE {}'' [sql_join (SQL '' AND '') (cs1 @ c # cs2)] \<and>
           filter_values_loop [] pre = Inr ps1 \<and> filter_values_loop [] post = Inr ps2 \<and>
           params = ps1 @ vs @ ps2 \<and>
           (upper operator \<in> {''IN'', ''NOT IN''} \<longrightarrow>
              py_iter v = Inr vs \<and> placeholders c = length vs \<and>
              as_string c = quote_ident column @ '' '' @ operator @ '' (''
                 @ str_join '', '' (replicate (length vs) ''%s'') @ '')'') \<and>
           (upper operator \<in> {''IS'', ''IS NOT''} \<and> v = VNone \<longrightarrow>
              vs = [] \<and> placeholders c = 0 \<and>
              as_string c = quote_ident column @ '' '' @ operator @ '' NULL'')"
proof -
  let ?f = "(column, operator, v)"
  from assms(1) have ne: "filters t \<noteq> []" by simp
  with assms(2) obtain conds where "where_loop [] (filters t) = Inr conds"
    and w: "w = sql_format '' WHERE {}'' [sql_join (SQL '' AND '') conds]"
    by (auto simp: Table_build_where_clause_def split: sum.splits)
  with assms(1) have "where_loop [] (pre @ ?f # post) = Inr conds" by simp
  from where_loop_split [OF this] obtain cs1 c cs2
    where cs1: "where_loop [] pre = Inr cs1" and c: "where_condition ?f = Inr c"
      and cs2: "where_loop [] post = Inr cs2" and conds: "conds = cs1 @ c # cs2"
    by blast
  from assms(1,3) have "filter_values_loop [] (pre @ ?f # post) = Inr params"
    by (simp add: Table_get_filter_values_def)
  from filter_values_loop_split [OF this] obtain ps1 vs ps2
    where ps1: "filter_values_loop [] pre = Inr ps1"
      and vs: "filter_values_loop [] [?f] = Inr vs"
      and ps2: "filter_values_loop [] post = Inr ps2" and params: "params = ps1 @ vs @ ps2"
    by blast
  have in_case: "py_iter v = Inr vs \<and> placeholders c = length vs \<and>
      as_string c = quote_ident column @ '' '' @ operator @ '' (''
         @ str_join '', '' (replicate (length vs) ''%s'') @ '')''"
    if op: "upper operator \<in> {''IN'', ''NOT IN''}"
  proof -
    from vs op have it: "py_iter v = Inr vs"
      unfolding filter_values_single by simp
    from in_condition [OF op it c] it show ?thesis by simp
  qed
  have null_case: "vs = [] \<and> placeholders c = 0 \<and>
      as_string c = quote_ident column @ '' '' @ operator @ '' NULL''"
    if h: "upper operator \<in> {''IS'', ''IS NOT''} \<and> v = VNone"
  proof -
    from h have op: "upper operator \<in> {''IS'', ''IS NOT''}" and v: "v = VNone" by simp_all
    from op have "upper operator \<notin> {''IN'', ''NOT IN''}" by auto
    with vs op v have "vs = []"
      unfolding filter_values_single by simp
    with is_null_condition [OF op c [unfolded v]] show ?thesis by simp
  qed
  from cs1 c cs2 w conds ps1 ps2 params in_case null_case show ?thesis
    by blast
qed


theorem in_and_is_null_entries_witness:
  "filters three_filters
     = [(''a'', ''='', VInt 1)] @ (''b'', ''IN'', VTuple [VInt 2, VInt 3]) # [(''c'', ''IS'', VNone)] \<and>
   filters three_filters
     = [(''a'', ''='', VInt 1), (''b'', ''IN'', VTuple [VInt 2, VInt 3])] @ (''c'', ''IS'', VNone) # [] \<and>
   Table_get_filter_values three_filters = Inr [VInt 1, VInt 2, VInt 3] \<and>
   upper ''IN'' \<in> {''IN'', ''NOT IN''} \<and>
   upper ''IS'' \<in> {''IS'', ''IS NOT''} \<and>
   (\<exists>c ps1 ps2.
      where_condition (''b'', ''IN'', VTuple [VInt 2, VInt 3]) = Inr c \<and>
      filter_values_loop [] [(''a'', ''='', VInt 1)] = Inr ps1 \<and>
      filter_values_loop [] [(''c'', ''IS'', VNone)] = Inr ps2 \<and>
      [VInt 1, VInt 2, VInt 3] = ps1 @ [VInt 2, VInt 3] @ ps2 \<and>
      placeholders c = 2 \<and>
      as_string c = quote_ident ''b'' @ '' IN (%s, %s)'') \<and>
   (\<exists>c ps1.
      where_condition (''c'', ''IS'', VNone) = Inr c \<and>
      filter_values_loop [] [(''a'', ''='', VInt 1), (''b'', ''IN'', VTuple [VInt 2, VInt 3])]
        = Inr ps1 \<and>
      [VInt 1, VInt 2, VInt 3] = ps1 @ [] \<and>
      placeholders c = 0 \<and>
      as_string c = quote_ident ''c'' @ '' IS NULL'')"
proof -
  have f1: "filters three_filters
     = [(''a'', ''='', VInt 1)] @ (''b'', ''IN'', VTuple [VInt 2, VInt 3]) # [(''c'', ''IS'', VNone)]"
    and f2: "filters three_filters
     = [(''a'', ''='', VInt 1), (''b'', ''IN'', VTuple [VInt 2, VInt 3])] @ (''c'', ''IS'', VNone) # []"
    by (simp_all add: filters_three_filters)
  note w = where_three_filters and p = values_three_filters
  from in_and_is_null_entries [OF f1 w p] in_and_is_null_entries [OF f2 w p] f1 f2 p
  show ?thesis
    by (auto simp: str_join_def numeral_2_eq_2)
qed

section \<open>SELECT\<close>

lemma as_string_order_by:
  "as_string (Table_build_order_by_clause t) =
     (if order_by t = [] then []
      else '' ORDER BY ''
             @ str_join '', '' (map (\<lambda>(col, direction). quote_ident col @ '' '' @ direction)
                                 (order_by t)))"
  by (simp add: Table_build_order_by_clause_def sql_format_def as_string_sql_join comp_def
      split_def)

lemma as_string_where:
  "Table_build_where_clause t = Inr w \<Longrightarrow>
     (filters t = [] \<longrightarrow> as_string w = []) \<and>
     (filters t \<noteq> [] \<longrightarrow>
        (\<exists>conditions. where_loop [] (filters t) = Inr conditions \<and>
           as_string w = '' WHERE '' @ str_join '' AND '' (map as_string conditions)))"
  by (auto simp: Table_build_where_clause_def sql_format_def as_string_sql_join
      split: sum.splits if_splits)

lemma select_round_trip:
  "select_statement round_trip =
     Inr (sql_join (SQL '' '')
            [sql_format ''SELECT {} FROM'' [SQL ''*''],
             Identifier ''t'',
             sql_format '' WHERE {}''
               [sql_join (SQL '' AND '')
                  [sql_format ''{} {} {}'' [Identifier ''a'', SQL ''='', Placeholder],
                   sql_format ''{} {} {}'' [Identifier ''b'', SQL ''>'', Placeholder]]],
             sql_format '' ORDER BY {}''
               [sql_join (SQL '', '') [sql_format ''{} {}'' [Identifier ''c'', SQL ''DESC'']]],
             SQL '' LIMIT %s'',
             SQL []],
          [VInt 1, VInt 5, VInt 3])"
  by (simp add: select_statement_def round_trip_def builder_defs example_table_def
      Table_init_def Table_build_where_clause_def where_condition_def
      Table_get_filter_values_def Table_build_order_by_clause_def Table_build_limit_clause_def
      Table_build_offset_clause_def Table_get_table_identifier_def truthy_def
      upper_def upper_char_def)

text \<open>
  C7. Whenever a SELECT is compiled, its text is \<open>SELECT\<close>, the projection, \<open>FROM\<close>, the
  relation, and then the WHERE clause, the ORDER BY clause, the LIMIT clause and the
  OFFSET clause in this order, each one empty when the table has no filters, no
  ordering, no limit or no offset (the separating blanks stay). Its parameter list is
  the WHERE parameters, then the limit when one is set, then the offset when one is
  set. A table with no filters, limit 10 and offset 5 compiles with the parameter list
  \<open>[10, 5]\<close>, whatever its projection and ordering are.
\<close>

theorem select_clause_order_and_params:
  "(select_statement t = Inr (q, params) \<longrightarrow>
      (\<exists>w wp.
         Table_build_where_clause t = Inr w \<and> Table_get_filter_values t = Inr wp \<and>
         as_string q =
           ''SELECT ''
             @ (if select_columns t = [''*''] then ''*''
                else str_join '', '' (map quote_ident (select_columns t)))
             @ '' FROM '' @ as_string (Table_get_table_identifier t)
             @ '' '' @ as_string w
             @ '' '' @ (if order_by t = [] then []
                        else '' ORDER BY ''
                               @ str_join '', ''
                                   (map (\<lambda>(col, direction). quote_ident col @ '' '' @ direction)
                                      (order_by t)))
             @ '' '' @ (if limit t \<noteq> VNone then '' LIMIT %s'' else [])
             @ '' '' @ (if offset t \<noteq> VNone then '' OFFSET %s'' else []) \<and>
         (filters t = [] \<longrightarrow> as_string w = []) \<and>
         (filters t \<noteq> [] \<longrightarrow>
            (\<exists>conditions. where_loop [] (filters t) = Inr conditions \<and>
               as_string w = '' WHERE '' @ str_join '' AND '' (map as_string conditions))) \<and>
         params = wp @ (if limit t \<noteq> VNone then [limit t] else [])
                     @ (if offset t \<noteq> VNone then [offset t] else []))) \<and>
   (filters t2 = [] \<and> limit t2 = VInt 10 \<and> offset t2 = VInt 5 \<longrightarrow>
      (\<exists>q2. select_statement t2 = Inr (q2, [VInt 10, VInt 5])))"
proof (intro conjI impI)
  assume s: "select_statement t = Inr (q, params)"
  then obtain w wp where w: "Table_build_where_clause t = Inr w"
    and wp: "Table_get_filter_values t = Inr wp"
    by (auto simp: select_statement_def Let_def split: sum.splits)
  let ?select_clause = "if select_columns t = [''*''] then SQL ''*''
                        else sql_join (SQL '', '') (map Identifier (select_columns t))"
  from s w wp have q: "q = sql_join (SQL '' '')
      [sql_format ''SELECT {} FROM'' [?select_clause], Table_get_table_identifier t, w,
       Table_build_order_by_clause t, Table_build_limit_clause t, Table_build_offset_clause t]"
    and params: "params = wp @ (if limit t \<noteq> VNone then [limit t] else [])
                     @ (if offset t \<noteq> VNone then [offset t] else [])"
    by (simp_all add: select_statement_def Let_def truthy_def)
  have sel: "as_string (sql_format ''SELECT {} FROM'' [?select_clause]) =
      ''SELECT '' @ (if select_columns t = [''*''] then ''*''
                else str_join '', '' (map quote_ident (select_columns t))) @ '' FROM''"
    by (simp add: sql_format_def as_string_sql_join comp_def)
  have lim: "as_string (Table_build_limit_clause t)
      = (if limit t \<noteq> VNone then '' LIMIT %s'' else [])"
    and off: "as_string (Table_build_offset_clause t)
      = (if offset t \<noteq> VNone then '' OFFSET %s'' else [])"
    by (simp_all add: Table_build_limit_clause_def Table_build_offset_clause_def)
  have rendered: "as_string q =
           ''SELECT ''
             @ (if select_columns t = [''*''] then ''*''
                else str_join '', '' (map quote_ident (select_columns t)))
             @ '' FROM '' @ as_string (Table_get_table_identifier t)
             @ '' '' @ as_string w
             @ '' '' @ (if order_by t = [] then []
                        else '' ORDER BY ''
                               @ str_join '', ''
                                   (map (\<lambda>(col, direction). quote_ident col @ '' '' @ direction)
                                      (order_by t)))
             @ '' '' @ (if limit t \<noteq> VNone then '' LIMIT %s'' else [])
             @ '' '' @ (if offset t \<noteq> VNone then '' OFFSET %s'' else [])"
    unfolding q as_string_sql_join
    by (simp only: list.map sel lim off as_string_order_by as_string.simps)
       (simp add: str_join_def)
  from as_string_where [OF w] w wp rendered params
  show "\<exists>w wp.
         Table_build_where_clause t = Inr w \<and> Table_get_filter_values t = Inr wp \<and>
         as_string q =
           ''SELECT ''
             @ (if select_columns t = [''*''] then ''*''
                else str_join '', '' (map quote_ident (select_columns t)))
             @ '' FROM '' @ as_string (Table_get_table_identifier t)
             @ '' '' @ as_string w
             @ '' '' @ (if order_by t = [] then []
                        else '' ORDER BY ''
                               @ str_join '', ''
                                   (map (\<lambda>(col, direction). quote_ident col @ '' '' @ direction)
                                      (order_by t)))
             @ '' '' @ (if limit t \<noteq> VNone then '' LIMIT %s'' else [])
             @ '' '' @ (if offset t \<noteq> VNone then '' OFFSET %s'' else []) \<and>
         (filters t = [] \<longrightarrow> as_string w = []) \<and>
         (filters t \<noteq> [] \<longrightarrow>
            (\<exists>conditions. where_loop [] (filters t) = Inr conditions \<and>
               as_string w = '' WHERE '' @ str_join '' AND '' (map as_string conditions))) \<and>
         params = wp @ (if limit t \<noteq> VNone then [limit t] else [])
                     @ (if offset t \<noteq> VNone then [offset t] else [])"
    by blast
next
  assume "filters t2 = [] \<and> limit t2 = VInt 10 \<and> offset t2 = VInt 5"
  then show "\<exists>q2. select_statement t2 = Inr (q2, [VInt 10, VInt 5])"
    by (simp add: select_statement_def Let_def Table_build_where_clause_def
        Table_get_filter_values_def)
qed


theorem select_clause_order_and_params_witness:
  "select_statement round_trip =
     Inr (sql_join (SQL '' '')
            [sql_format ''SELECT {} FROM'' [SQL ''*''],
             Identifier ''t'',
             sql_format '' WHERE {}''
               [sql_join (SQL '' AND '')
                  [sql_format ''{} {} {}'' [Identifier ''a'', SQL ''='', Placeholder],
                   sql_format ''{} {} {}'' [Identifier ''b'', SQL ''>'', Placeholder]]],
             sql_format '' ORDER BY {}''
               [sql_join (SQL '', '') [sql_format ''{} {}'' [Identifier ''c'', SQL ''DESC'']]],
             SQL '' LIMIT %s'',
             SQL []],
          [VInt 1, VInt 5, VInt 3]) \<and>
   as_string
     (sql_join (SQL '' '')
            [sql_format ''SELECT {} FROM'' [SQL ''*''],
             Identifier ''t'',
             sql_format '' WHERE {}''
               [sql_join (SQL '' AND '')
                  [sql_format ''{} {} {}'' [Identifier ''a'', SQL ''='', Placeholder],
                   sql_format ''{} {} {}'' [Identifier ''b'', SQL ''>'', Placeholder]]],
             sql_format '' ORDER BY {}''
               [sql_join (SQL '', '') [sql_format ''{} {}'' [Identifier ''c'', SQL ''DESC'']]],
             SQL '' LIMIT %s'',
             SQL []])
     = ''SELECT * FROM '' @ quote_ident ''t'' @ ''  WHERE '' @ quote_ident ''a''
         @ '' = %s AND '' @ quote_ident ''b'' @ '' > %s  ORDER BY '' @ quote_ident ''c''
         @ '' DESC  LIMIT %s '' \<and>
   filters paged = [] \<and> limit paged = VInt 10 \<and> offset paged = VInt 5 \<and>
   (\<exists>q2. select_statement paged = Inr (q2, [VInt 10, VInt 5]))"
proof -
  have p: "filters paged = [] \<and> limit paged = VInt 10 \<and> offset paged = VInt 5"
    by (simp add: paged_def builder_defs example_table_def Table_init_def)
  have w: "Table_build_where_clause round_trip =
      Inr (sql_format '' WHERE {}''
               [sql_join (SQL '' AND '')
                  [sql_format ''{} {} {}'' [Identifier ''a'', SQL ''='', Placeholder],
                   sql_format ''{} {} {}'' [Identifier ''b'', SQL ''>'', Placeholder]]])"
    by (simp add: round_trip_def builder_defs example_table_def
      Table_init_def Table_build_where_clause_def where_condition_def upper_def upper_char_def)
  have r: "select_columns round_trip = [''*''] \<and> order_by round_trip = [(''c'', ''DESC'')] \<and>
      limit round_trip = VInt 3 \<and> offset round_trip = VNone \<and> schema round_trip = None \<and>
      table_name round_trip = ''t''"
    by (simp add: round_trip_def builder_defs example_table_def Table_init_def)
  from select_clause_order_and_params [where t = round_trip and ?t2.0 = paged
      and params = "[VInt 1, VInt 5, VInt 3]"] select_round_trip p
  show ?thesis
    by (auto simp: w r str_join_def sql_format_def as_string_sql_join
        Table_get_table_identifier_def)
qed

section \<open>UPSERT\<close>

lemma as_string_placeholders:
  "as_string (sql_join (SQL '', '') (replicate n Placeholder))
     = str_join '', '' (replicate n ''%s'')"
  by (simp add: as_string_sql_join)

text \<open>
  C8. Whenever an UPSERT is compiled, with \<open>d0\<close> the first row of the payload, the
  columns assigned in its \<open>DO UPDATE SET\<close> clause are the columns of \<open>d0\<close> that are not
  among the conflict columns, exactly those, in the order of \<open>d0\<close>, and each is assigned
  as \<open>quote(col) = EXCLUDED.quote(col)\<close>, joined by commas.
\<close>

theorem upsert_update_set:
  assumes "upsert_statement t payload conflict_columns = Inr (q, params)"
  shows "\<exists>d0 rest.
           as_list payload = d0 # rest \<and>
           set (update_columns (keys d0) conflict_columns) = set (keys d0) - set conflict_columns \<and>
           subseq (update_columns (keys d0) conflict_columns) (keys d0) \<and>
           as_string q =
             ''INSERT INTO '' @ as_string (Table_get_table_identifier t)
               @ '' ('' @ str_join '', '' (map quote_ident (keys d0))
               @ '') VALUES '' @ str_join '', '' (replicate (length (d0 # rest)) ''%s'')
               @ '' ON CONFLICT ('' @ str_join '', '' (map quote_ident conflict_columns)
               @ '') DO UPDATE SET ''
               @ str_join '', ''
                   (map (\<lambda>col. quote_ident col @ '' = EXCLUDED.'' @ quote_ident col)
                      (update_columns (keys d0) conflict_columns))
               @ '' RETURNING *''"
proof -
  from assms obtain d0 rest where data: "as_list payload = d0 # rest"
    and q: "q = sql_format
                  ''INSERT INTO {} ({}) VALUES {} ON CONFLICT ({}) DO UPDATE SET {} RETURNING *''
                  [Table_get_table_identifier t,
                   sql_join (SQL '', '') (map Identifier (keys d0)),
                   sql_join (SQL '', '') (replicate (length (d0 # rest)) Placeholder),
                   sql_join (SQL '', '') (map Identifier conflict_columns),
                   sql_join (SQL '', '')
                     (map (\<lambda>col. sql_format ''{} = EXCLUDED.{}'' [Identifier col, Identifier col])
                        (update_columns (keys d0) conflict_columns))]"
    by (auto simp: upsert_statement_def Let_def split: list.splits sum.splits)
  have cols: "set (update_columns (keys d0) conflict_columns) = set (keys d0) - set conflict_columns"
    by (auto simp: update_columns_def)
  have order: "subseq (update_columns (keys d0) conflict_columns) (keys d0)"
    by (simp add: update_columns_def)
  have "as_string q =
             ''INSERT INTO '' @ as_string (Table_get_table_identifier t)
               @ '' ('' @ str_join '', '' (map quote_ident (keys d0))
               @ '') VALUES '' @ str_join '', '' (replicate (length (d0 # rest)) ''%s'')
               @ '' ON CONFLICT ('' @ str_join '', '' (map quote_ident conflict_columns)
               @ '') DO UPDATE SET ''
               @ str_join '', ''
                   (map (\<lambda>col. quote_ident col @ '' = EXCLUDED.'' @ quote_ident col)
                      (update_columns (keys d0) conflict_columns))
               @ '' RETURNING *''"
    unfolding q by (simp add: sql_format_def as_string_sql_join comp_def)
  with data cols order show ?thesis by blast
qed

theorem upsert_update_set_witness:
  "upsert_statement example_table (OneDict [(''id'', VInt 1), (''name'', VStr ''x'')]) [''id'']
     = Inr (sql_format
              ''INSERT INTO {} ({}) VALUES {} ON CONFLICT ({}) DO UPDATE SET {} RETURNING *''
              [Identifier ''t'',
               sql_join (SQL '', '') [Identifier ''id'', Identifier ''name''],
               sql_join (SQL '', '') [Placeholder],
               sql_join (SQL '', '') [Identifier ''id''],
               sql_join (SQL '', '')
                 [sql_format ''{} = EXCLUDED.{}'' [Identifier ''name'', Identifier ''name'']]],
            [VTuple [VInt 1, VStr ''x'']]) \<and>
   update_columns (keys [(''id'', VInt 1), (''name'', VStr ''x'')]) [''id''] = [''name''] \<and>
   as_string
     (sql_format
        ''INSERT INTO {} ({}) VALUES {} ON CONFLICT ({}) DO UPDATE SET {} RETURNING *''
        [Identifier ''t'',
         sql_join (SQL '', '') [Identifier ''id'', Identifier ''name''],
         sql_join (SQL '', '') [Placeholder],
         sql_join (SQL '', '') [Identifier ''id''],
         sql_join (SQL '', '')
           [sql_format ''{} = EXCLUDED.{}'' [Identifier ''name'', Identifier ''name'']]])
     = ''INSERT INTO '' @ quote_ident ''t'' @ '' ('' @ quote_ident ''id'' @ '', ''
         @ quote_ident ''name'' @ '') VALUES %s ON CONFLICT ('' @ quote_ident ''id''
         @ '') DO UPDATE SET '' @ quote_ident ''name'' @ '' = EXCLUDED.'' @ quote_ident ''name''
         @ '' RETURNING *''"
proof -
  have h: "upsert_statement example_table
             (OneDict [(''id'', VInt 1), (''name'', VStr ''x'')]) [''id'']
     = Inr (sql_format
              ''INSERT INTO {} ({}) VALUES {} ON CONFLICT ({}) DO UPDATE SET {} RETURNING *''
              [Identifier ''t'',
               sql_join (SQL '', '') [Identifier ''id'', Identifier ''name''],
               sql_join (SQL '', '') [Placeholder],
               sql_join (SQL '', '') [Identifier ''id''],
               sql_join (SQL '', '')
                 [sql_format ''{} = EXCLUDED.{}'' [Identifier ''name'', Identifier ''name'']]],
            [VTuple [VInt 1, VStr ''x'']])"
    by (simp add: upsert_statement_def keys_def getitem_def update_columns_def
        Table_get_table_identifier_def example_table_def Table_init_def)
  from upsert_update_set [OF h] h show ?thesis
    by (auto simp: keys_def update_columns_def str_join_def Table_get_table_identifier_def
        example_table_def Table_init_def)
qed

section \<open>Rows of INSERT and UPSERT\<close>

lemma getitem_present: "k \<in> set (keys d) \<Longrightarrow> \<exists>v. getitem d k = Inr v"
  by (cases "map_of d k") (auto simp: getitem_def keys_def map_of_eq_None_iff)

lemma getitem_missing: "k \<notin> set (keys d) \<Longrightarrow> getitem d k = Inl (KeyError k)"
  by (simp add: getitem_def keys_def map_of_eq_None_iff [THEN iffD2])

lemma row_cells_present:
  "set cols \<subseteq> set (keys r) \<Longrightarrow> \<exists>vs. row_cells r cols = Inr vs"
proof (induction cols)
  case Nil
  then show ?case by simp
next
  case (Cons col cols)
  then obtain v vs where "getitem r col = Inr v" "row_cells r cols = Inr vs"
    using getitem_present [of col r] by auto
  then show ?case by simp
qed

lemma row_cells_missing:
  "k \<in> set cols \<Longrightarrow> k \<notin> set (keys r) \<Longrightarrow>
     \<exists>k'. k' \<in> set cols \<and> k' \<notin> set (keys r) \<and> row_cells r cols = Inl (KeyError k')"
proof (induction cols)
  case Nil
  then show ?case by simp
next
  case (Cons col cols)
  show ?case
  proof (cases "col \<in> set (keys r)")
    case False
    then show ?thesis by (auto simp: getitem_missing)
  next
    case True
    with Cons.prems have "k \<in> set cols" by auto
    from Cons.IH [OF this Cons.prems(2)] obtain k' where
      "k' \<in> set cols" "k' \<notin> set (keys r)" "row_cells r cols = Inl (KeyError k')" by blast
    moreover from True obtain v where "getitem r col = Inr v"
      using getitem_present by blast
    ultimately show ?thesis by auto
  qed
qed

lemma rows_cells_present:
  "\<forall>r\<in>set rs. set cols \<subseteq> set (keys r) \<Longrightarrow>
     \<exists>vss. rows_cells cols rs = Inr vss \<and> length vss = length rs"
proof (induction rs)
  case Nil
  then show ?case by simp
next
  case (Cons r rs)
  then obtain vs vss where "row_cells r cols = Inr vs" "rows_cells cols rs = Inr vss"
    "length vss = length rs"
    using row_cells_present [of cols r] by auto
  then show ?case by simp
qed

lemma rows_cells_missing:
  "r \<in> set rs \<Longrightarrow> k \<in> set cols \<Longrightarrow> k \<notin> set (keys r) \<Longrightarrow>
     \<exists>k'. k' \<in> set cols \<and> rows_cells cols rs = Inl (KeyError k')"
proof (induction rs)
  case Nil
  then show ?case by simp
next
  case (Cons r' rs)
  show ?case
  proof (cases "row_cells r' cols")
    case (Inr vs)
    have "r \<noteq> r'"
    proof
      assume "r = r'"
      with Cons.prems row_cells_missing [of k cols r'] Inr show False by auto
    qed
    with Cons.prems have "r \<in> set rs" by simp
    from Cons.IH [OF this Cons.prems(2,3)] Inr show ?thesis by auto
  next
    case (Inl e)
    have "\<exists>k'. k' \<in> set cols \<and> e = KeyError k'"
    proof (cases "set cols \<subseteq> set (keys r')")
      case True
      from row_cells_present [OF this] Inl show ?thesis by auto
    next
      case False
      then obtain j where "j \<in> set cols" "j \<notin> set (keys r')" by auto
      from row_cells_missing [OF this] Inl show ?thesis by auto
    qed
    with Inl show ?thesis by auto
  qed
qed

lemma run_statement_error: "run_statement t (Inl e) = (t, Inl e)"
  by (simp add: run_statement_def)

lemma run_statement_executes:
  "run_statement t (Inr (q, ps)) =
     (t\<lparr>conn := (conn t)\<lparr>executed := executed (conn t) @ [(as_string q, ps)]\<rparr>\<rparr>,
      respond (conn t) (as_string q) ps)"
  by (simp add: run_statement_def cur_execute_def)

lemmas statement_defs =
  insert_statement_def upsert_statement_def update_statement_def delete_statement_def
  Table_insert_def Table_upsert_def Table_update_def Table_delete_def
  run_statement_def cur_execute_def keys_def vals_def getitem_def update_columns_def
  Table_get_table_identifier_def Table_build_where_clause_def Table_get_filter_values_def
  example_table_def Table_init_def answering_def sql_format_def sql_join_def

text \<open>
  C4, as the code has it. \<^verbatim>\<open>insert\<close> and \<^verbatim>\<open>upsert\<close> read every row at the keys of the
  first row. When a later row lacks one of these keys, the operation raises
  \<^verbatim>\<open>KeyError\<close> for a key of the first row and returns the table as it was: no statement
  has been executed. When every later row has all the keys of the first row, both
  operations compile, with one parameter tuple per row, and hand their statement to the
  driver; what a later row holds beyond the keys of the first row is not looked at.
\<close>

theorem rows_with_divergent_keys:
  "(as_list payload = d0 # rest \<and> r \<in> set rest \<and> k \<in> set (keys d0) \<and> k \<notin> set (keys r) \<longrightarrow>
      (\<exists>k'. k' \<in> set (keys d0) \<and>
         Table_insert t payload = (t, Inl (KeyError k')) \<and>
         Table_upsert t payload conflict_columns = (t, Inl (KeyError k')))) \<and>
   (as_list payload2 = d2 # rest2 \<and> (\<forall>r\<in>set rest2. set (keys d2) \<subseteq> set (keys r)) \<longrightarrow>
      (\<exists>q q' ps.
         insert_statement t payload2 = Inr (q, ps) \<and>
         upsert_statement t payload2 conflict_columns = Inr (q', ps) \<and>
         length ps = length (d2 # rest2) \<and>
         executed (conn (fst (Table_insert t payload2)))
           = executed (conn t) @ [(as_string q, ps)] \<and>
         executed (conn (fst (Table_upsert t payload2 conflict_columns)))
           = executed (conn t) @ [(as_string q', ps)]))"
proof (intro conjI impI)
  assume a: "as_list payload = d0 # rest \<and> r \<in> set rest \<and> k \<in> set (keys d0) \<and> k \<notin> set (keys r)"
  then have "r \<in> set (d0 # rest)" by simp
  from rows_cells_missing [OF this, of k "keys d0"] a obtain k' where
    k': "k' \<in> set (keys d0)" and "rows_cells (keys d0) (d0 # rest) = Inl (KeyError k')"
    by blast
  with a have "insert_statement t payload = Inl (KeyError k')"
    "upsert_statement t payload conflict_columns = Inl (KeyError k')"
    by (simp_all add: insert_statement_def upsert_statement_def Let_def del: rows_cells.simps)
  with k' show "\<exists>k'. k' \<in> set (keys d0) \<and>
         Table_insert t payload = (t, Inl (KeyError k')) \<and>
         Table_upsert t payload conflict_columns = (t, Inl (KeyError k'))"
    by (auto simp: Table_insert_def Table_upsert_def run_statement_error)
next
  assume a: "as_list payload2 = d2 # rest2 \<and> (\<forall>r\<in>set rest2. set (keys d2) \<subseteq> set (keys r))"
  then have "\<forall>r\<in>set (d2 # rest2). set (keys d2) \<subseteq> set (keys r)" by simp
  from rows_cells_present [OF this] obtain vss where
    vss: "rows_cells (keys d2) (d2 # rest2) = Inr vss" and len: "length vss = length (d2 # rest2)"
    by blast
  from a vss obtain q q' where "insert_statement t payload2 = Inr (q, map VTuple vss)"
    "upsert_statement t payload2 conflict_columns = Inr (q', map VTuple vss)"
    by (simp add: insert_statement_def upsert_statement_def Let_def del: rows_cells.simps)
  with len show "\<exists>q q' ps.
         insert_statement t payload2 = Inr (q, ps) \<and>
         upsert_statement t payload2 conflict_columns = Inr (q', ps) \<and>
         length ps = length (d2 # rest2) \<and>
         executed (conn (fst (Table_insert t payload2)))
           = executed (conn t) @ [(as_string q, ps)] \<and>
         executed (conn (fst (Table_upsert t payload2 conflict_columns)))
           = executed (conn t) @ [(as_string q', ps)]"
    by (auto simp: Table_insert_def Table_upsert_def run_statement_executes)
qed


theorem rows_with_divergent_keys_witness:
  "as_list (DictList [[(''a'', VInt 1), (''b'', VInt 2)], [(''a'', VInt 3)]])
     = [(''a'', VInt 1), (''b'', VInt 2)] # [[(''a'', VInt 3)]] \<and>
   [(''a'', VInt 3)] \<in> set [[(''a'', VInt 3)]] \<and>
   ''b'' \<in> set (keys [(''a'', VInt 1), (''b'', VInt 2)]) \<and>
   ''b'' \<notin> set (keys [(''a'', VInt 3)]) \<and>
   Table_insert example_table (DictList [[(''a'', VInt 1), (''b'', VInt 2)], [(''a'', VInt 3)]])
     = (example_table, Inl (KeyError ''b'')) \<and>
   Table_upsert example_table (DictList [[(''a'', VInt 1), (''b'', VInt 2)], [(''a'', VInt 3)]])
       [''a'']
     = (example_table, Inl (KeyError ''b'')) \<and>
   as_list (DictList [[(''a'', VInt 1)], [(''b'', VInt 9), (''a'', VInt 2)]])
     = [(''a'', VInt 1)] # [[(''b'', VInt 9), (''a'', VInt 2)]] \<and>
   set (keys [(''a'', VInt 1)]) \<subseteq> set (keys [(''b'', VInt 9), (''a'', VInt 2)]) \<and>
   executed (conn (fst (Table_insert example_table
                          (DictList [[(''a'', VInt 1)], [(''b'', VInt 9), (''a'', VInt 2)]]))))
     = [(''INSERT INTO '' @ quote_ident ''t'' @ '' ('' @ quote_ident ''a''
           @ '') VALUES %s, %s RETURNING *'',
         [VTuple [VInt 1], VTuple [VInt 2]])]"
  using rows_with_divergent_keys
    [where payload = "DictList [[(''a'', VInt 1), (''b'', VInt 2)], [(''a'', VInt 3)]]"
       and ?d0.0 = "[(''a'', VInt 1), (''b'', VInt 2)]" and rest = "[[(''a'', VInt 3)]]"
       and r = "[(''a'', VInt 3)]" and k = "''b''" and t = example_table
       and conflict_columns = "[''a'']"
       and ?payload2.0 = "DictList [[(''a'', VInt 1)], [(''b'', VInt 9), (''a'', VInt 2)]]"
       and ?d2.0 = "[(''a'', VInt 1)]" and ?rest2.0 = "[[(''b'', VInt 9), (''a'', VInt 2)]]"]
  by (simp add: statement_defs)

text \<open>
  The claim as written fails: the rows \<open>{a: 1}\<close> and \<open>{b: 9, a: 2}\<close> have different key
  sets, and \<^verbatim>\<open>insert\<close> executes its statement with the tuples \<open>(1)\<close> and \<open>(2)\<close> and
  returns the driver's rows.
\<close>

theorem rows_with_divergent_keys_counterexample:
  "set (keys [(''a'', VInt 1)]) \<noteq> set (keys [(''b'', VInt 9), (''a'', VInt 2)]) \<and>
   Table_insert example_table (DictList [[(''a'', VInt 1)], [(''b'', VInt 9), (''a'', VInt 2)]])
     = (example_table
          \<lparr>conn := (conn example_table)
             \<lparr>executed :=
                [(''INSERT INTO '' @ quote_ident ''t'' @ '' ('' @ quote_ident ''a''
                    @ '') VALUES %s, %s RETURNING *'',
                  [VTuple [VInt 1], VTuple [VInt 2]])]\<rparr>\<rparr>,
        Inr [])"
  by (simp add: statement_defs)

section \<open>Empty payloads\<close>

text \<open>
  C5, as the code has it. \<^verbatim>\<open>insert\<close> and \<^verbatim>\<open>upsert\<close> with no row raise \<^verbatim>\<open>IndexError\<close>
  at \<^verbatim>\<open>data[0]\<close> and return the table as it was: no statement has been executed.
  \<^verbatim>\<open>update\<close> with an empty mapping checks nothing: whenever the filters compile, the
  statement \<open>UPDATE relation SET  where RETURNING *\<close>, with an empty assignment list, goes
  to the driver with the filter values as its parameters, and the driver's answer is
  the result.
\<close>

theorem empty_payloads:
  "(as_list payload = [] \<longrightarrow>
      Table_insert t payload = (t, Inl IndexError) \<and>
      Table_upsert t payload conflict_columns = (t, Inl IndexError)) \<and>
   (Table_build_where_clause t2 = Inr w \<and> Table_get_filter_values t2 = Inr ps \<longrightarrow>
      executed (conn (fst (Table_update t2 [])))
        = executed (conn t2)
            @ [(''UPDATE '' @ as_string (Table_get_table_identifier t2) @ '' SET  ''
                  @ as_string w @ '' RETURNING *'', ps)] \<and>
      snd (Table_update t2 [])
        = respond (conn t2)
            (''UPDATE '' @ as_string (Table_get_table_identifier t2) @ '' SET  ''
               @ as_string w @ '' RETURNING *'') ps)"
  by (simp add: insert_statement_def upsert_statement_def update_statement_def
      Table_insert_def Table_upsert_def Table_update_def run_statement_def cur_execute_def
      keys_def vals_def sql_format_def sql_join_def)

theorem empty_payloads_witness:
  "as_list (DictList []) = [] \<and>
   Table_insert example_table (DictList []) = (example_table, Inl IndexError) \<and>
   Table_upsert example_table (DictList []) [''id''] = (example_table, Inl IndexError) \<and>
   Table_build_where_clause filtered_twice
     = Inr (sql_format '' WHERE {}''
              [sql_join (SQL '' AND '')
                 [sql_format ''{} {} {}'' [Identifier ''a'', SQL ''='', Placeholder],
                  sql_format ''{} {} {}'' [Identifier ''a'', SQL ''='', Placeholder]]]) \<and>
   Table_get_filter_values filtered_twice = Inr [VInt 1, VInt 1] \<and>
   executed (conn (fst (Table_update filtered_twice [])))
     = [(''UPDATE '' @ quote_ident ''t'' @ '' SET   WHERE '' @ quote_ident ''a''
           @ '' = %s AND '' @ quote_ident ''a'' @ '' = %s RETURNING *'',
         [VInt 1, VInt 1])] \<and>
   snd (Table_update filtered_twice []) = Inr []"
proof -
  have w: "Table_build_where_clause filtered_twice
     = Inr (sql_format '' WHERE {}''
              [sql_join (SQL '' AND '')
                 [sql_format ''{} {} {}'' [Identifier ''a'', SQL ''='', Placeholder],
                  sql_format ''{} {} {}'' [Identifier ''a'', SQL ''='', Placeholder]]])"
    and p: "Table_get_filter_values filtered_twice = Inr [VInt 1, VInt 1]"
    by (simp_all add: filtered_twice_def builder_defs example_table_def Table_init_def
        Table_build_where_clause_def Table_get_filter_values_def where_condition_def
        upper_def upper_char_def)
  have c: "conn filtered_twice = answering (Inr [])" "schema filtered_twice = None"
    "table_name filtered_twice = ''t''"
    by (simp_all add: filtered_twice_def builder_defs example_table_def Table_init_def)
  from empty_payloads
    [where payload = "DictList []" and t = example_table and conflict_columns = "[''id'']"
       and ?t2.0 = filtered_twice and ps = "[VInt 1, VInt 1]"] w p
  show ?thesis
    by (simp add: c answering_def Table_get_table_identifier_def sql_format_def sql_join_def)
qed

text \<open>
  The claim as written fails: \<^verbatim>\<open>update\<close> with the empty mapping on a table with no filters
  executes a statement and returns the driver's rows.
\<close>

theorem empty_payloads_counterexample:
  "Table_update example_table []
     = (example_table
          \<lparr>conn := (conn example_table)
             \<lparr>executed := [(''UPDATE '' @ quote_ident ''t'' @ '' SET   RETURNING *'', [])]\<rparr>\<rparr>,
        Inr [])"
  by (simp add: statement_defs)

section \<open>The result of a procedure call\<close>

text \<open>
  C2, as the code has it. A call whose statement returns no row yields \<^verbatim>\<open>None\<close>, and so
  does a call whose first row holds \<^verbatim>\<open>None\<close> under the procedure's name: the two
  outcomes are the same value.
\<close>

theorem rpc_no_rows_or_null:
  "(respond c (as_string (fst (call_statement procedure params)))
        (snd (call_statement procedure params)) = Inr [] \<longrightarrow>
      snd (RPC_call c procedure params) = Inr VNone) \<and>
   (respond c2 (as_string (fst (call_statement procedure params)))
        (snd (call_statement procedure params)) = Inr (r # rs) \<and>
    getitem r procedure = Inr VNone \<longrightarrow>
      snd (RPC_call c2 procedure params) = Inr VNone)"
  by (auto simp: RPC_call_def cur_execute_def fetchone_def unwrap_result_def
      split: prod.splits sum.splits)

theorem rpc_no_rows_or_null_witness:
  "respond (answering (Inr [])) (as_string (fst (call_statement ''f'' None)))
     (snd (call_statement ''f'' None)) = Inr [] \<and>
   snd (RPC_call (answering (Inr [])) ''f'' None) = Inr VNone \<and>
   respond (answering (Inr [[(''f'', VNone)]])) (as_string (fst (call_statement ''f'' None)))
     (snd (call_statement ''f'' None)) = Inr ([(''f'', VNone)] # []) \<and>
   getitem [(''f'', VNone)] ''f'' = Inr VNone \<and>
   snd (RPC_call (answering (Inr [[(''f'', VNone)]])) ''f'' None) = Inr VNone"
  using rpc_no_rows_or_null
    [where c = "answering (Inr [])" and procedure = "''f''" and params = None
       and ?c2.0 = "answering (Inr [[(''f'', VNone)]])" and r = "[(''f'', VNone)]" and rs = "[]"]
  by (simp add: answering_def getitem_def)

text \<open>
  The claim as written fails: for the procedure \<open>f\<close>, the driver that returns no row and the
  driver that returns the one row \<open>{f: None}\<close> both make \<^verbatim>\<open>call\<close> return \<^verbatim>\<open>None\<close>.
\<close>

theorem rpc_no_rows_counterexample:
  "snd (RPC_call (answering (Inr [])) ''f'' None) = Inr VNone \<and>
   snd (RPC_call (answering (Inr [[(''f'', VNone)]])) ''f'' None) = Inr VNone"
  by (simp add: RPC_call_def cur_execute_def fetchone_def unwrap_result_def answering_def
      getitem_def call_statement_def Let_def)

section \<open>Statement timeouts\<close>

text \<open>
  C3 at a driver that cancels every statement: \<^verbatim>\<open>execute\<close> raises \<^verbatim>\<open>TimeoutError\<close>, while
  \<^verbatim>\<open>insert\<close>, \<^verbatim>\<open>upsert\<close>, \<^verbatim>\<open>update\<close>, \<^verbatim>\<open>delete\<close> and \<^verbatim>\<open>RPC.call\<close> let the
  driver's \<^verbatim>\<open>QueryCanceled\<close> through.
\<close>

theorem timeout_left_untranslated:
  "snd (Table_execute (Table_init (answering (Inl QueryCanceled)) ''t''))
     = Inl (TimeoutError ''Query execution timed out'') \<and>
   snd (Table_insert (Table_init (answering (Inl QueryCanceled)) ''t'') (OneDict [(''a'', VInt 1)]))
     = Inl QueryCanceled \<and>
   snd (Table_upsert (Table_init (answering (Inl QueryCanceled)) ''t'') (OneDict [(''a'', VInt 1)])
          [''a''])
     = Inl QueryCanceled \<and>
   snd (Table_update (Table_init (answering (Inl QueryCanceled)) ''t'') [(''a'', VInt 1)])
     = Inl QueryCanceled \<and>
   snd (Table_delete (Table_init (answering (Inl QueryCanceled)) ''t'')) = Inl QueryCanceled \<and>
   snd (RPC_call (answering (Inl QueryCanceled)) ''f'' None) = Inl QueryCanceled"
  by (simp add: statement_defs Table_execute_def select_statement_def RPC_call_def
      call_statement_def Let_def truthy_def)

end
